theory Spec2Isabelle
  imports Complex_Main
begin

section \<open>Numeric values\<close>

text \<open>
  The module computes with NumPy double-precision floats.  They are idealised here as real
  numbers, extended by the one exceptional value the computation can produce: NaN, the
  result of \<^verbatim>\<open>np.arcsin\<close> outside \<open>[-1, 1]\<close> (NumPy returns NaN and emits a
  RuntimeWarning; it does not raise).  A float is a \<^typ>\<open>real option\<close> with \<open>None\<close>
  for NaN.  Arithmetic on NaN gives NaN; every comparison with NaN is false.
\<close>

type_synonym npfloat = "real option"

definition np_arcsin :: "real \<Rightarrow> npfloat" where
  "np_arcsin x = (if - 1 \<le> x \<and> x \<le> 1 then Some (arcsin x) else None)"

definition np_abs :: "npfloat \<Rightarrow> npfloat" where
  "np_abs a = map_option abs a"

definition fl_times :: "real \<Rightarrow> npfloat \<Rightarrow> npfloat" where
  "fl_times c a = map_option (\<lambda>x. c * x) a"

definition fl_less :: "npfloat \<Rightarrow> real \<Rightarrow> bool" where
  "fl_less a b = (case a of None \<Rightarrow> False | Some x \<Rightarrow> x < b)"

definition fl_greater :: "npfloat \<Rightarrow> real \<Rightarrow> bool" where
  "fl_greater a b = (case a of None \<Rightarrow> False | Some x \<Rightarrow> x > b)"

definition np_sign :: "real \<Rightarrow> real" where
  "np_sign x = (if x < 0 then - 1 else if x > 0 then 1 else 0)"

text \<open>\<^verbatim>\<open>.astype(int)\<close> truncates towards zero.\<close>

definition astype_int :: "real \<Rightarrow> int" where
  "astype_int x = (if 0 \<le> x then \<lfloor>x\<rfloor> else \<lceil>x\<rceil>)"

definition deg2rad :: "real \<Rightarrow> real" where
  "deg2rad x = x * (pi / 180)"

section \<open>Arrays\<close>

text \<open>
  An n-dimensional array is its shape and its elements in row-major order (what
  \<^verbatim>\<open>ravel\<close> returns).  A Python scalar is treated as the 0-dimensional array of shape
  \<open>[]\<close> with one element.
\<close>

record 'a ndarray =
  shape :: "nat list"
  elems :: "'a list"

definition scalar_array :: "'a \<Rightarrow> 'a ndarray" where
  "scalar_array x = \<lparr>shape = [], elems = [x]\<rparr>"

text \<open>\<^verbatim>\<open>np.asarray([a, b, c])\<close> for three arrays of one shape: a new leading axis of length 3.\<close>

definition stack3 :: "'a ndarray \<Rightarrow> 'a ndarray \<Rightarrow> 'a ndarray \<Rightarrow> 'a ndarray" where
  "stack3 a b c = \<lparr>shape = 3 # shape a, elems = elems a @ elems b @ elems c\<rparr>"

definition array_map :: "('a \<Rightarrow> 'b) \<Rightarrow> 'a ndarray \<Rightarrow> 'b ndarray" where
  "array_map f a = \<lparr>shape = shape a, elems = map f (elems a)\<rparr>"

text \<open>
  \<^verbatim>\<open>b.reshape((3,) + s).all(axis=0)\<close> for a flat array \<open>b\<close> of \<open>3 * n\<close> booleans,
  \<open>n\<close> the number of elements of shape \<open>s\<close>: element \<open>k\<close> of the result is the
  conjunction of elements \<open>k\<close>, \<open>n + k\<close> and \<open>2 * n + k\<close>.
\<close>

definition all_axis0 :: "nat \<Rightarrow> bool list \<Rightarrow> bool list" where
  "all_axis0 n b = map (\<lambda>k. b ! k \<and> b ! (n + k) \<and> b ! (2 * n + k)) [0..<n]"

section \<open>Errors\<close>

text \<open>The argument \<open>roll\<close> of \<^verbatim>\<open>calculate_allowable_map\<close> by its dynamic type.\<close>

datatype roll_arg =
    PyFloat real
  | PyInt int
  | NpInteger int
  | NpNdarray "real ndarray"
  | NpFloat32 real
  | PyList "real list"
  | PyNone

text \<open>
  Every exception is a \<^verbatim>\<open>ValueError\<close>; they differ in what they carry.
  \<open>ValueError_roll\<close> is \<^verbatim>\<open>raise ValueError(roll)\<close> of \<^verbatim>\<open>calculate_allowable_map\<close>;
  the others are raised inside SciPy and NumPy with a message.
\<close>

datatype error =
    ValueError_roll roll_arg
  | ValueError_rotations nat nat
  | ValueError_zero_norm
  | ValueError_reshape nat "nat list"
  | ValueError_truth_value

section \<open>Rotations (\<^verbatim>\<open>scipy.spatial.transform.Rotation\<close>)\<close>

text \<open>
  SciPy stores a rotation object as a stack of unit quaternions in scalar-last order
  \<open>(x, y, z, w)\<close>, with a flag telling whether it was built from a single rotation.
\<close>

type_synonym quaternion = "real \<times> real \<times> real \<times> real"
type_synonym vec3 = "real \<times> real \<times> real"

record rotation =
  single :: bool
  quat :: "quaternion list"

datatype axis = X | Y | Z

text \<open>The angle argument of \<^verbatim>\<open>from_euler\<close>: a scalar or a one-dimensional array.\<close>

datatype angles = Scalar real | Array1 "real list"

fun neg_angles :: "angles \<Rightarrow> angles" where
  "neg_angles (Scalar a) = Scalar (- a)"
| "neg_angles (Array1 as) = Array1 (map uminus as)"

fun make_elementary_quat :: "axis \<Rightarrow> real \<Rightarrow> quaternion" where
  "make_elementary_quat X a = (sin (a / 2), 0, 0, cos (a / 2))"
| "make_elementary_quat Y a = (0, sin (a / 2), 0, cos (a / 2))"
| "make_elementary_quat Z a = (0, 0, sin (a / 2), cos (a / 2))"

text \<open>\<^verbatim>\<open>Rotation.from_euler(axis, angles, degrees=True)\<close> for a single axis.\<close>

fun from_euler :: "axis \<Rightarrow> angles \<Rightarrow> rotation" where
  "from_euler ax (Scalar a) =
     \<lparr>single = True, quat = [make_elementary_quat ax (deg2rad a)]\<rparr>"
| "from_euler ax (Array1 as) =
     \<lparr>single = False, quat = map (\<lambda>a. make_elementary_quat ax (deg2rad a)) as\<rparr>"

text \<open>The Hamilton product \<open>p * q\<close>: the rotation \<open>q\<close> followed by the rotation \<open>p\<close>.\<close>

fun compose_quat :: "quaternion \<Rightarrow> quaternion \<Rightarrow> quaternion" where
  "compose_quat (p0, p1, p2, p3) (q0, q1, q2, q3) =
     (p3 * q0 + q3 * p0 + (p1 * q2 - p2 * q1),
      p3 * q1 + q3 * p1 + (p2 * q0 - p0 * q2),
      p3 * q2 + q3 * p2 + (p0 * q1 - p1 * q0),
      p3 * q3 - p0 * q0 - p1 * q1 - p2 * q2)"

text \<open>Normalisation of a quaternion; \<open>None\<close> when its norm is zero.\<close>

fun normalize4 :: "quaternion \<Rightarrow> quaternion option" where
  "normalize4 (x, y, z, w) =
     (let n = sqrt (x * x + y * y + z * z + w * w)
      in if n = 0 then None else Some (x / n, y / n, z / n, w / n))"

text \<open>
  \<^verbatim>\<open>p * q\<close> on rotation objects: the stacks must have equal length unless one of them
  has length 1, which is broadcast; the products are normalised, and a product of norm
  zero is an error.
\<close>

definition rotation_mul :: "rotation \<Rightarrow> rotation \<Rightarrow> error + rotation" where
  "rotation_mul p q =
     (let lp = length (quat p); lq = length (quat q)
      in if \<not> (lp = 1 \<or> lq = 1 \<or> lp = lq) then Inl (ValueError_rotations lp lq)
         else
           let ps = (if lp = 1 then replicate lq (hd (quat p)) else quat p);
               qs = (if lq = 1 then replicate lp (hd (quat q)) else quat q)
           in case those (map normalize4 (map2 compose_quat ps qs)) of
                None \<Rightarrow> Inl ValueError_zero_norm
              | Some rs \<Rightarrow> Inr \<lparr>single = single p \<and> single q, quat = rs\<rparr>)"

text \<open>The rotation matrix of a quaternion (\<^verbatim>\<open>as_matrix\<close>), applied to a vector.\<close>

fun quat_apply :: "quaternion \<Rightarrow> vec3 \<Rightarrow> vec3" where
  "quat_apply (x, y, z, w) (v0, v1, v2) =
     ((x * x - y * y - z * z + w * w) * v0 + 2 * (x * y - z * w) * v1 + 2 * (x * z + y * w) * v2,
      2 * (x * y + z * w) * v0 + (- (x * x) + y * y - z * z + w * w) * v1 + 2 * (y * z - x * w) * v2,
      2 * (x * z - y * w) * v0 + 2 * (y * z + x * w) * v1 + (- (x * x) - y * y + z * z + w * w) * v2)"

text \<open>\<^verbatim>\<open>np.atleast_2d(r.apply(v))\<close> for one vector \<open>v\<close>: one row per rotation of the stack.\<close>

definition rotation_apply :: "rotation \<Rightarrow> vec3 \<Rightarrow> vec3 list" where
  "rotation_apply r v = map (\<lambda>q. quat_apply q v) (quat r)"

section \<open>The module\<close>

fun vec_x :: "vec3 \<Rightarrow> real" where
  "vec_x (x, y, z) = x"

fun vec_y :: "vec3 \<Rightarrow> real" where
  "vec_y (x, y, z) = y"

fun vec_z :: "vec3 \<Rightarrow> real" where
  "vec_z (x, y, z) = z"


text \<open>
  \<^verbatim>\<open>get_critical_angles\<close> in its two parts: the array \<^verbatim>\<open>vsunf\<close> of the Sun vectors
  in spacecraft coordinates (the statements before \<^verbatim>\<open>return\<close>), and the returned
  tuple as a function of \<^verbatim>\<open>vsunf\<close>.
\<close>

definition vsunf :: "angles \<Rightarrow> angles \<Rightarrow> angles \<Rightarrow> error + vec3 list" where
  "vsunf dlong decl roll =
     (let rlong = from_euler X (neg_angles dlong);
          rlat = from_euler Y (neg_angles decl);
          rroll = from_euler Z (neg_angles roll)
      in case rotation_mul rroll rlat of
           Inl e \<Rightarrow> Inl e
         | Inr rr \<Rightarrow>
             (case rotation_mul rr rlong of
                Inl e \<Rightarrow> Inl e
              | Inr rfinal \<Rightarrow> Inr (rotation_apply rfinal (0, 0, - 1))))"

definition critical_angles_of :: "vec3 list \<Rightarrow> int list \<times> npfloat list \<times> npfloat list" where
  "critical_angles_of vs =
     (map (\<lambda>v. astype_int (np_sign (vec_x v))) vs,
      map (\<lambda>v. fl_times 57.296 (np_arcsin (vec_z v))) vs,
      map (\<lambda>v. fl_times 57.296 (np_abs (np_arcsin (vec_y v)))) vs)"

definition get_critical_angles ::
  "angles \<Rightarrow> angles \<Rightarrow> angles \<Rightarrow> error + (int list \<times> npfloat list \<times> npfloat list)" where
  "get_critical_angles dlong decl roll =
     (case vsunf dlong decl roll of
        Inl e \<Rightarrow> Inl e
      | Inr vs \<Rightarrow> Inr (critical_angles_of vs))"

subsection \<open>\<^verbatim>\<open>check_range\<close>\<close>

text \<open>
  One printed line: the tuple given to the format string, that is the day offset, the three
  values of \<^verbatim>\<open>ans\<close> and the alarm texts \<open>cx\<close>, \<open>cy\<close>, \<open>cz\<close> in the printed order.
\<close>

record report_line =
  day :: int
  line_sign_x :: int
  line_sun_angle :: npfloat
  line_sun_angle_SC :: npfloat
  cx :: string
  cy :: string
  cz :: string

text \<open>
  The body of the loop for day \<open>i\<close>.  Each component of \<^verbatim>\<open>ans\<close> is an array; the
  \<^verbatim>\<open>if\<close> statements take its truth value, which NumPy gives for an array of one element
  only.
\<close>

definition check_day :: "real \<Rightarrow> real \<Rightarrow> real \<Rightarrow> real \<Rightarrow> int \<Rightarrow> error + report_line" where
  "check_day dlong decl roll ylim i =
     (case get_critical_angles (Scalar (dlong + real_of_int i)) (Scalar decl) (Scalar roll) of
        Inl e \<Rightarrow> Inl e
      | Inr ([a0], [a1], [a2]) \<Rightarrow>
          Inr \<lparr>day = i, line_sign_x = a0, line_sun_angle = a1, line_sun_angle_SC = a2,
               cx = (if a0 < 0 then ''Sun on -X'' else []),
               cy = (if fl_greater a2 ylim then ''Sun > Y angle limit'' else []),
               cz = (if fl_greater a1 (- 5) then ''Sun above sunshade'' else [])\<rparr>
      | Inr _ \<Rightarrow> Inl ValueError_truth_value)"

text \<open>
  The loop over the days, threading the lines printed so far; an exception ends the loop
  and leaves the lines already printed.
\<close>

fun check_range_loop ::
  "real \<Rightarrow> real \<Rightarrow> real \<Rightarrow> real \<Rightarrow> int list \<Rightarrow> report_line list
     \<Rightarrow> report_line list \<times> error option" where
  "check_range_loop dlong decl roll ylim [] out = (out, None)"
| "check_range_loop dlong decl roll ylim (i # is) out =
     (case check_day dlong decl roll ylim i of
        Inl e \<Rightarrow> (out, Some e)
      | Inr l \<Rightarrow> check_range_loop dlong decl roll ylim is (out @ [l]))"

definition check_range ::
  "real \<Rightarrow> real \<Rightarrow> real \<Rightarrow> real \<Rightarrow> int \<Rightarrow> report_line list \<times> error option" where
  "check_range dlong decl roll ylim ndays =
     check_range_loop dlong decl roll ylim [- ndays..ndays] []"

subsection \<open>\<^verbatim>\<open>calculate_allowable_map\<close>\<close>

text \<open>The element-wise conjunction of the three conditions.\<close>

definition conditions :: "real \<Rightarrow> int list \<Rightarrow> npfloat list \<Rightarrow> npfloat list \<Rightarrow> bool list" where
  "conditions ylim sign_x sun_angle sun_angle_SC =
     map (\<lambda>(s, a, c). s > 0 \<and> fl_less a (- 5) \<and> fl_less c ylim)
       (zip sign_x (zip sun_angle sun_angle_SC))"

text \<open>
  The two type tests on \<open>roll\<close>: \<^verbatim>\<open>isinstance(roll, (float, int, np.integer))\<close>, with
  the number when it holds, and \<^verbatim>\<open>isinstance(roll, np.ndarray) & hasattr(roll, '__iter__')\<close>,
  with the array when it holds (every \<^verbatim>\<open>ndarray\<close> has the attribute).
\<close>

fun scalar_roll :: "roll_arg \<Rightarrow> real option" where
  "scalar_roll (PyFloat r) = Some r"
| "scalar_roll (PyInt r) = Some (real_of_int r)"
| "scalar_roll (NpInteger r) = Some (real_of_int r)"
| "scalar_roll _ = None"

fun ndarray_roll :: "roll_arg \<Rightarrow> real ndarray option" where
  "ndarray_roll (NpNdarray a) = Some a"
| "ndarray_roll _ = None"

definition calculate_allowable_map ::
  "real ndarray \<Rightarrow> real ndarray \<Rightarrow> roll_arg \<Rightarrow> real \<Rightarrow> real \<Rightarrow> error + bool ndarray" where
  "calculate_allowable_map dlong decl roll ylim ndays =
     (let dlong3 = stack3 (array_map (\<lambda>d. d - ndays) dlong) dlong
                     (array_map (\<lambda>d. d + ndays) dlong);
          decl3 = stack3 decl decl decl;
          angles =
            (case scalar_roll roll of
               Some r \<Rightarrow>
                 get_critical_angles (Array1 (elems dlong3)) (Array1 (elems decl3)) (Scalar r)
             | None \<Rightarrow>
                 (case ndarray_roll roll of
                    Some a \<Rightarrow>
                      (let roll3 = stack3 a a a
                       in get_critical_angles (Array1 (elems dlong3)) (Array1 (elems decl3))
                            (Array1 (elems roll3)))
                  | None \<Rightarrow> Inl (ValueError_roll roll)))
      in case angles of
           Inl e \<Rightarrow> Inl e
         | Inr (sign_x, sun_angle, sun_angle_SC) \<Rightarrow>
             (let b = conditions ylim sign_x sun_angle sun_angle_SC
              in if length b \<noteq> prod_list (shape dlong3)
                 then Inl (ValueError_reshape (length b) (shape dlong3))
                 else Inr \<lparr>shape = shape dlong,
                           elems = all_axis0 (prod_list (shape dlong)) b\<rparr>))"

subsection \<open>\<^verbatim>\<open>build_grid\<close>\<close>

text \<open>\<^verbatim>\<open>np.mgrid[a:b, c:d]\<close> as two lists of rows.\<close>

definition mgrid :: "int \<Rightarrow> int \<Rightarrow> int \<Rightarrow> int \<Rightarrow> int list list \<times> int list list" where
  "mgrid a b c d =
     (map (\<lambda>i. map (\<lambda>j. i) [c..d - 1]) [a..b - 1],
      map (\<lambda>i. map (\<lambda>j. j) [c..d - 1]) [a..b - 1])"

text \<open>The slice \<^verbatim>\<open>[::2]\<close>.\<close>

fun step2 :: "'a list \<Rightarrow> 'a list" where
  "step2 [] = []"
| "step2 [x] = [x]"
| "step2 (x # y # xs) = x # step2 xs"

text \<open>A two-dimensional array from its rows.\<close>

definition of_rows :: "'a list list \<Rightarrow> 'a ndarray" where
  "of_rows rs = \<lparr>shape = [length rs, (case rs of [] \<Rightarrow> 0 | r # _ \<Rightarrow> length r)],
                 elems = concat rs\<rparr>"

text \<open>\<^verbatim>\<open>np.arange(lo, hi, step)\<close> on integers, for a positive step.\<close>

definition arange :: "int \<Rightarrow> int \<Rightarrow> int \<Rightarrow> int list" where
  "arange lo hi step = map (\<lambda>k. lo + step * int k) [0..<nat ((hi - lo + step - 1) div step)]"

text \<open>
  Boolean-mask indexing \<^verbatim>\<open>a[mask]\<close>: the elements of \<open>a\<close> where the mask is true, in
  row-major order.
\<close>

definition masked :: "'a ndarray \<Rightarrow> bool ndarray \<Rightarrow> 'a list" where
  "masked a m = map fst (filter snd (zip (elems a) (elems m)))"

text \<open>
  \<^verbatim>\<open>np.vstack([dlong[allowable], decl[allowable], np.ones(allowable.sum()) * roll]).T\<close>:
  one row \<open>[dlong, decl, roll]\<close> for each allowable cell.
\<close>

definition triples :: "real ndarray \<Rightarrow> real ndarray \<Rightarrow> bool ndarray \<Rightarrow> int \<Rightarrow> real list list" where
  "triples dlong decl allowable roll =
     map (\<lambda>(d, e, r). [d, e, r])
       (zip (masked dlong allowable)
          (zip (masked decl allowable)
             (map (\<lambda>one. one * real_of_int roll)
                (replicate (length (filter id (elems allowable))) 1))))"

text \<open>The loop over the rolls, with the list \<open>r\<close> of the blocks collected so far.\<close>

fun build_loop ::
  "real ndarray \<Rightarrow> real ndarray \<Rightarrow> int list \<Rightarrow> real list list list
     \<Rightarrow> error + real list list list" where
  "build_loop dlong decl [] r = Inr r"
| "build_loop dlong decl (roll # rolls) r =
     (case calculate_allowable_map dlong decl (NpInteger roll) 15 14 of
        Inl e \<Rightarrow> Inl e
      | Inr allowable \<Rightarrow>
          build_loop dlong decl rolls (r @ [triples dlong decl allowable roll]))"

definition grid_dlong :: "real ndarray" where
  "grid_dlong =
     of_rows (map (map real_of_int) (map step2 (step2 (fst (mgrid (- 180) 179 (- 90) 90)))))"

definition grid_decl :: "real ndarray" where
  "grid_decl =
     of_rows (map (map real_of_int) (map step2 (step2 (snd (mgrid (- 180) 179 (- 90) 90)))))"

text \<open>
  \<^verbatim>\<open>build_grid\<close> returns nothing; its result is the array written to
  \<^verbatim>\<open>allowable_pointings_grid.p\<close>, given here as the list of its rows.
\<close>

definition build_grid :: "error + real list list" where
  "build_grid =
     (case build_loop grid_dlong grid_decl (arange (- 180) 179 5) [] of
        Inl e \<Rightarrow> Inl e
      | Inr r \<Rightarrow> Inr (concat r))"

section \<open>The specification's evaluator\<close>

text \<open>
  The rotations about the coordinate axes by an angle in degrees, as the matrices act on a
  column vector, and the evaluator as the specification words it: the composed rotation
  \<open>Rz(-roll) \<circ> Ry(-decl) \<circ> Rx(-dlong)\<close> applied to \<open>(0, 0, -1)\<close>.
\<close>

definition spec_Rx :: "real \<Rightarrow> vec3 \<Rightarrow> vec3" where
  "spec_Rx \<theta> v = (case v of (x, y, z) \<Rightarrow>
     (x,
      y * cos (\<theta> * pi / 180) - z * sin (\<theta> * pi / 180),
      y * sin (\<theta> * pi / 180) + z * cos (\<theta> * pi / 180)))"

definition spec_Ry :: "real \<Rightarrow> vec3 \<Rightarrow> vec3" where
  "spec_Ry \<theta> v = (case v of (x, y, z) \<Rightarrow>
     (x * cos (\<theta> * pi / 180) + z * sin (\<theta> * pi / 180),
      y,
      z * cos (\<theta> * pi / 180) - x * sin (\<theta> * pi / 180)))"

definition spec_Rz :: "real \<Rightarrow> vec3 \<Rightarrow> vec3" where
  "spec_Rz \<theta> v = (case v of (x, y, z) \<Rightarrow>
     (x * cos (\<theta> * pi / 180) - y * sin (\<theta> * pi / 180),
      x * sin (\<theta> * pi / 180) + y * cos (\<theta> * pi / 180),
      z))"

definition spec_sun_vector :: "real \<Rightarrow> real \<Rightarrow> real \<Rightarrow> vec3" where
  "spec_sun_vector dlong decl roll =
     (spec_Rz (- roll) \<circ> spec_Ry (- decl) \<circ> spec_Rx (- dlong)) (0, 0, - 1)"

definition spec_sign :: "real \<Rightarrow> int" where
  "spec_sign x = (if x > 0 then 1 else if x < 0 then - 1 else 0)"

definition spec_evaluate :: "real \<Rightarrow> real \<Rightarrow> real \<Rightarrow> int \<times> real \<times> real" where
  "spec_evaluate dlong decl roll =
     (let v = spec_sun_vector dlong decl roll
      in (spec_sign (vec_x v), 57.296 * arcsin (vec_z v), 57.296 * \<bar>arcsin (vec_y v)\<bar>))"

section \<open>Auxiliary notions\<close>

text \<open>Unit quaternions, the squared length of a vector, and the quaternion that
  \<^verbatim>\<open>rfinal\<close> holds for one orientation.\<close>

definition unit_quat :: "quaternion \<Rightarrow> bool" where
  "unit_quat q = (case q of (x, y, z, w) \<Rightarrow> x * x + y * y + z * z + w * w = 1)"

definition sq_norm :: "vec3 \<Rightarrow> real" where
  "sq_norm v = vec_x v * vec_x v + vec_y v * vec_y v + vec_z v * vec_z v"

definition sun_quat :: "real \<Rightarrow> real \<Rightarrow> real \<Rightarrow> quaternion" where
  "sun_quat dlong decl roll =
     compose_quat
       (compose_quat (make_elementary_quat Z (deg2rad (- roll)))
          (make_elementary_quat Y (deg2rad (- decl))))
       (make_elementary_quat X (deg2rad (- dlong)))"

text \<open>
  The three conditions of \<^verbatim>\<open>calculate_allowable_map\<close> on what \<^verbatim>\<open>get_critical_angles\<close>
  returns for one orientation, and their conjunction over the three evaluation points
  \<open>dlong - ndays\<close>, \<open>dlong\<close>, \<open>dlong + ndays\<close> of a sector.
\<close>

definition conditions_at :: "real \<Rightarrow> real \<Rightarrow> real \<Rightarrow> real \<Rightarrow> bool" where
  "conditions_at ylim dlong decl roll =
     (case get_critical_angles (Scalar dlong) (Scalar decl) (Scalar roll) of
        Inr ([sign_x], [sun_angle], [sun_angle_SC]) \<Rightarrow>
          sign_x > 0 \<and> fl_less sun_angle (- 5) \<and> fl_less sun_angle_SC ylim
      | _ \<Rightarrow> False)"

definition sector_ok :: "real \<Rightarrow> real \<Rightarrow> real \<Rightarrow> real \<Rightarrow> real \<Rightarrow> bool" where
  "sector_ok ylim ndays dlong decl roll =
     (conditions_at ylim (dlong - ndays) decl roll
      \<and> conditions_at ylim dlong decl roll
      \<and> conditions_at ylim (dlong + ndays) decl roll)"

text \<open>The values of \<open>dlong\<close> and \<open>decl\<close> in cell \<open>k\<close> (row-major) of the grid of
  \<^verbatim>\<open>build_grid\<close>.\<close>

definition cell_dlong :: "nat \<Rightarrow> real" where
  "cell_dlong k = real_of_int (- 180 + 2 * int (k div 90))"

definition cell_decl :: "nat \<Rightarrow> real" where
  "cell_decl k = real_of_int (- 90 + 2 * int (k mod 90))"

declare make_elementary_quat.simps [simp del]

section \<open>Quaternions and rotations\<close>


lemma unit_quat_elementary: "unit_quat (make_elementary_quat ax a)"
  by (cases ax)
    (simp_all add: make_elementary_quat.simps unit_quat_def power2_eq_square [symmetric])

lemma unit_quat_compose:
  assumes "unit_quat p" "unit_quat q"
  shows "unit_quat (compose_quat p q)"
proof -
  obtain p0 p1 p2 p3 where p: "p = (p0, p1, p2, p3)" by (cases p)
  obtain q0 q1 q2 q3 where q: "q = (q0, q1, q2, q3)" by (cases q)
  have "(p3 * q0 + q3 * p0 + (p1 * q2 - p2 * q1)) * (p3 * q0 + q3 * p0 + (p1 * q2 - p2 * q1))
      + (p3 * q1 + q3 * p1 + (p2 * q0 - p0 * q2)) * (p3 * q1 + q3 * p1 + (p2 * q0 - p0 * q2))
      + (p3 * q2 + q3 * p2 + (p0 * q1 - p1 * q0)) * (p3 * q2 + q3 * p2 + (p0 * q1 - p1 * q0))
      + (p3 * q3 - p0 * q0 - p1 * q1 - p2 * q2) * (p3 * q3 - p0 * q0 - p1 * q1 - p2 * q2)
      = (p0 * p0 + p1 * p1 + p2 * p2 + p3 * p3) * (q0 * q0 + q1 * q1 + q2 * q2 + q3 * q3)"
    by (simp add: algebra_simps)
  with assms show ?thesis by (simp add: unit_quat_def p q)
qed

lemma normalize4_unit: "unit_quat q \<Longrightarrow> normalize4 q = Some q"
  by (cases q) (simp add: unit_quat_def)

lemma quat_apply_compose:
  "quat_apply (compose_quat p q) v = quat_apply p (quat_apply q v)"
proof -
  obtain p0 p1 p2 p3 where p: "p = (p0, p1, p2, p3)" by (cases p)
  obtain q0 q1 q2 q3 where q: "q = (q0, q1, q2, q3)" by (cases q)
  obtain v0 v1 v2 where v: "v = (v0, v1, v2)" by (cases v)
  show ?thesis unfolding p q v by (simp add: algebra_simps)
qed

lemma double_half: "t * pi / 180 = 2 * (deg2rad t / 2)"
  by (simp add: deg2rad_def)

lemma cos_deg: "cos (t * pi / 180) =
    cos (deg2rad t / 2) * cos (deg2rad t / 2) - sin (deg2rad t / 2) * sin (deg2rad t / 2)"
  unfolding double_half cos_double by (simp add: power2_eq_square)

lemma sin_deg: "sin (t * pi / 180) = 2 * sin (deg2rad t / 2) * cos (deg2rad t / 2)"
  unfolding double_half sin_double by simp

lemma sin_cos_unit: "sin h * sin h * (c::real) + cos h * cos h * c = c"
proof -
  have "sin h * sin h * c + cos h * cos h * c = (sin h * sin h + cos h * cos h) * c"
    by (simp only: distrib_right)
  also have "\<dots> = c"
    by (simp add: power2_eq_square [symmetric])
  finally show ?thesis .
qed

lemma quat_apply_X: "quat_apply (make_elementary_quat X (deg2rad t)) v = spec_Rx t v"
proof -
  obtain v0 v1 v2 where v: "v = (v0, v1, v2)" by (cases v)
  show ?thesis
    unfolding v spec_Rx_def cos_deg sin_deg
    by (simp add: make_elementary_quat.simps algebra_simps sin_cos_unit)
qed

lemma quat_apply_Y: "quat_apply (make_elementary_quat Y (deg2rad t)) v = spec_Ry t v"
proof -
  obtain v0 v1 v2 where v: "v = (v0, v1, v2)" by (cases v)
  show ?thesis
    unfolding v spec_Ry_def cos_deg sin_deg
    by (simp add: make_elementary_quat.simps algebra_simps sin_cos_unit)
qed

lemma quat_apply_Z: "quat_apply (make_elementary_quat Z (deg2rad t)) v = spec_Rz t v"
proof -
  obtain v0 v1 v2 where v: "v = (v0, v1, v2)" by (cases v)
  show ?thesis
    unfolding v spec_Rz_def cos_deg sin_deg
    by (simp add: make_elementary_quat.simps algebra_simps sin_cos_unit)
qed


lemma those_normalize4:
  "list_all unit_quat qs \<Longrightarrow> those (map normalize4 qs) = Some qs"
  by (induction qs) (simp_all add: normalize4_unit)

lemma singleton_hd: "length xs = Suc 0 \<Longrightarrow> [hd xs] = xs"
  by (cases xs) simp_all

lemma map2_replicate:
  "map2 f (replicate (length ys) a) ys = map (f a) ys"
  by (induction ys) simp_all

lemma list_all_map2_compose:
  "list_all unit_quat ps \<Longrightarrow> list_all unit_quat qs
     \<Longrightarrow> list_all unit_quat (map2 compose_quat ps qs)"
proof (induction ps arbitrary: qs)
  case Nil
  then show ?case by simp
next
  case (Cons p ps)
  then show ?case by (cases qs) (simp_all add: unit_quat_compose)
qed

lemma rotation_mul_same:
  assumes "length (quat p) = length (quat q)"
    and "list_all unit_quat (quat p)" and "list_all unit_quat (quat q)"
  shows "rotation_mul p q =
    Inr \<lparr>single = single p \<and> single q, quat = map2 compose_quat (quat p) (quat q)\<rparr>"
proof -
  have ps: "(if length (quat p) = 1 then replicate (length (quat q)) (hd (quat p)) else quat p)
      = quat p"
    using assms(1) by (auto simp: singleton_hd)
  have qs: "(if length (quat q) = 1 then replicate (length (quat p)) (hd (quat q)) else quat q)
      = quat q"
    using assms(1) by (auto simp: singleton_hd)
  have "those (map normalize4 (map2 compose_quat (quat p) (quat q)))
      = Some (map2 compose_quat (quat p) (quat q))"
    by (rule those_normalize4) (rule list_all_map2_compose [OF assms(2,3)])
  then show ?thesis
    unfolding rotation_mul_def Let_def ps qs using assms(1) by simp
qed

lemma rotation_mul_broadcast:
  assumes "quat p = [a]" and "unit_quat a" and "list_all unit_quat (quat q)"
  shows "rotation_mul p q =
    Inr \<lparr>single = single p \<and> single q, quat = map (compose_quat a) (quat q)\<rparr>"
proof -
  have qs: "(if length (quat q) = 1 then replicate (length (quat p)) (hd (quat q)) else quat q)
      = quat q"
    using assms(1) by (auto simp: singleton_hd)
  have u: "list_all unit_quat (map2 compose_quat (replicate (length (quat q)) a) (quat q))"
  proof (rule list_all_map2_compose)
    show "list_all unit_quat (replicate (length (quat q)) a)"
      using assms(2) by (simp add: list_all_iff)
    show "list_all unit_quat (quat q)"
      by (rule assms(3))
  qed
  have "those (map normalize4 (map2 compose_quat (replicate (length (quat q)) a) (quat q)))
      = Some (map (compose_quat a) (quat q))"
    using those_normalize4 [OF u] by (simp only: map2_replicate)
  then show ?thesis
    unfolding rotation_mul_def Let_def qs by (simp add: assms(1))
qed



lemma quat_apply_sun_quat:
  "quat_apply (sun_quat dlong decl roll) v
     = spec_Rz (- roll) (spec_Ry (- decl) (spec_Rx (- dlong) v))"
  by (simp only: sun_quat_def quat_apply_compose quat_apply_X quat_apply_Y quat_apply_Z)

lemma vsunf_scalar:
  "vsunf (Scalar dlong) (Scalar decl) (Scalar roll) = Inr [spec_sun_vector dlong decl roll]"
proof -
  let ?qz = "make_elementary_quat Z (deg2rad (- roll))"
  let ?qy = "make_elementary_quat Y (deg2rad (- decl))"
  let ?qx = "make_elementary_quat X (deg2rad (- dlong))"
  have m1: "rotation_mul \<lparr>single = True, quat = [?qz]\<rparr> \<lparr>single = True, quat = [?qy]\<rparr>
      = Inr \<lparr>single = True, quat = [compose_quat ?qz ?qy]\<rparr>"
    by (subst rotation_mul_same) (simp_all add: unit_quat_elementary)
  have m2: "rotation_mul \<lparr>single = True, quat = [compose_quat ?qz ?qy]\<rparr>
        \<lparr>single = True, quat = [?qx]\<rparr>
      = Inr \<lparr>single = True, quat = [sun_quat dlong decl roll]\<rparr>"
    by (subst rotation_mul_same)
      (simp_all add: unit_quat_elementary unit_quat_compose sun_quat_def)
  show ?thesis
    unfolding vsunf_def Let_def neg_angles.simps from_euler.simps m1
    by (simp add: m2 rotation_apply_def quat_apply_sun_quat spec_sun_vector_def comp_def)
qed

lemma vsunf_arrays:
  assumes "length decl = length dlong" and "length roll = length dlong"
  shows "vsunf (Array1 dlong) (Array1 decl) (Array1 roll)
     = Inr (map (\<lambda>i. spec_sun_vector (dlong ! i) (decl ! i) (roll ! i)) [0..<length dlong])"
proof -
  let ?qz = "map (\<lambda>a. make_elementary_quat Z (deg2rad a)) (map uminus roll)"
  let ?qy = "map (\<lambda>a. make_elementary_quat Y (deg2rad a)) (map uminus decl)"
  let ?qx = "map (\<lambda>a. make_elementary_quat X (deg2rad a)) (map uminus dlong)"
  have uz: "list_all unit_quat ?qz" and uy: "list_all unit_quat ?qy"
    and ux: "list_all unit_quat ?qx"
    by (simp_all add: list_all_iff unit_quat_elementary)
  have m1: "rotation_mul \<lparr>single = False, quat = ?qz\<rparr> \<lparr>single = False, quat = ?qy\<rparr>
      = Inr \<lparr>single = False, quat = map2 compose_quat ?qz ?qy\<rparr>"
    using uz uy by (subst rotation_mul_same) (simp_all add: assms)
  have m2: "rotation_mul \<lparr>single = False, quat = map2 compose_quat ?qz ?qy\<rparr>
        \<lparr>single = False, quat = ?qx\<rparr>
      = Inr \<lparr>single = False, quat = map2 compose_quat (map2 compose_quat ?qz ?qy) ?qx\<rparr>"
    using list_all_map2_compose [OF uz uy] ux
    by (subst rotation_mul_same) (simp_all add: assms)
  have v: "map (\<lambda>q. quat_apply q (0, 0, - 1)) (map2 compose_quat (map2 compose_quat ?qz ?qy) ?qx)
      = map (\<lambda>i. spec_sun_vector (dlong ! i) (decl ! i) (roll ! i)) [0..<length dlong]"
    by (rule nth_equalityI)
      (simp_all add: assms quat_apply_compose quat_apply_X quat_apply_Y quat_apply_Z
        spec_sun_vector_def comp_def)
  show ?thesis
    unfolding vsunf_def Let_def neg_angles.simps from_euler.simps m1
    by (simp only: m2 rotation_apply_def v sum.case rotation.simps)
qed

lemma vsunf_scalar_roll:
  assumes "length decl = length dlong"
  shows "vsunf (Array1 dlong) (Array1 decl) (Scalar roll)
     = Inr (map (\<lambda>i. spec_sun_vector (dlong ! i) (decl ! i) roll) [0..<length dlong])"
proof -
  let ?qz = "make_elementary_quat Z (deg2rad (- roll))"
  let ?qy = "map (\<lambda>a. make_elementary_quat Y (deg2rad a)) (map uminus decl)"
  let ?qx = "map (\<lambda>a. make_elementary_quat X (deg2rad a)) (map uminus dlong)"
  have uy: "list_all unit_quat ?qy" and ux: "list_all unit_quat ?qx"
    by (simp_all add: list_all_iff unit_quat_elementary)
  have m1: "rotation_mul \<lparr>single = True, quat = [?qz]\<rparr> \<lparr>single = False, quat = ?qy\<rparr>
      = Inr \<lparr>single = False, quat = map (compose_quat ?qz) ?qy\<rparr>"
    using uy by (subst rotation_mul_broadcast [where a = ?qz])
      (simp_all add: unit_quat_elementary)
  have u: "list_all unit_quat (map (compose_quat ?qz) ?qy)"
    by (simp add: list_all_iff unit_quat_elementary unit_quat_compose)
  have m2: "rotation_mul \<lparr>single = False, quat = map (compose_quat ?qz) ?qy\<rparr>
        \<lparr>single = False, quat = ?qx\<rparr>
      = Inr \<lparr>single = False, quat = map2 compose_quat (map (compose_quat ?qz) ?qy) ?qx\<rparr>"
    using u ux by (subst rotation_mul_same) (simp_all add: assms)
  have v: "map (\<lambda>q. quat_apply q (0, 0, - 1)) (map2 compose_quat (map (compose_quat ?qz) ?qy) ?qx)
      = map (\<lambda>i. spec_sun_vector (dlong ! i) (decl ! i) roll) [0..<length dlong]"
    by (rule nth_equalityI)
      (simp_all add: assms quat_apply_compose quat_apply_X quat_apply_Y quat_apply_Z
        spec_sun_vector_def comp_def)
  show ?thesis
    unfolding vsunf_def Let_def neg_angles.simps from_euler.simps m1
    by (simp only: m2 rotation_apply_def v sum.case rotation.simps)
qed


lemma sum_of_quotients:
  "x / n * (x / n) + y / n * (y / n) + z / n * (z / n) + w / n * (w / n)
     = (x * x + y * y + z * z + w * w) / (n * n)" for x y z w n :: real
  by (simp add: add_divide_distrib)

lemma normalize4_result:
  assumes "normalize4 q = Some q'"
  shows "unit_quat q'"
proof -
  obtain x y z w where q: "q = (x, y, z, w)" by (cases q)
  define S where "S = x * x + y * y + z * z + w * w"
  define n where "n = sqrt S"
  have "0 \<le> S" by (simp add: S_def)
  then have n2: "n * n = S" by (simp add: n_def)
  from assms have n0: "n \<noteq> 0" and q': "q' = (x / n, y / n, z / n, w / n)"
    by (auto simp: q S_def n_def Let_def split: if_splits)
  have "x / n * (x / n) + y / n * (y / n) + z / n * (z / n) + w / n * (w / n) = S / (n * n)"
    unfolding S_def by (rule sum_of_quotients)
  also have "\<dots> = 1" using n0 by (simp add: n2 [symmetric])
  finally show ?thesis by (simp add: q' unit_quat_def)
qed

lemma those_normalize4_result:
  "those (map normalize4 qs) = Some rs \<Longrightarrow> list_all unit_quat rs"
proof (induction qs arbitrary: rs)
  case Nil
  then show ?case by simp
next
  case (Cons q qs)
  then show ?case
    by (auto split: option.splits dest: normalize4_result)
qed

lemma rotation_mul_result:
  assumes "rotation_mul p q = Inr r"
  shows "list_all unit_quat (quat r)"
proof -
  define xs where "xs = map2 compose_quat
    (if length (quat p) = 1 then replicate (length (quat q)) (hd (quat p)) else quat p)
    (if length (quat q) = 1 then replicate (length (quat p)) (hd (quat q)) else quat q)"
  have "rotation_mul p q =
    (if \<not> (length (quat p) = 1 \<or> length (quat q) = 1 \<or> length (quat p) = length (quat q))
     then Inl (ValueError_rotations (length (quat p)) (length (quat q)))
     else case those (map normalize4 xs) of
            None \<Rightarrow> Inl ValueError_zero_norm
          | Some rs \<Rightarrow> Inr \<lparr>single = single p \<and> single q, quat = rs\<rparr>)"
    unfolding rotation_mul_def Let_def xs_def ..
  with assms obtain rs where "those (map normalize4 xs) = Some rs" and "quat r = rs"
    by (auto split: if_splits option.splits)
  then show ?thesis
    by (auto dest: those_normalize4_result)
qed

lemma quat_apply_sq_norm:
  assumes "unit_quat q"
  shows "sq_norm (quat_apply q v) = sq_norm v"
proof -
  obtain x y z w where q: "q = (x, y, z, w)" by (cases q)
  obtain v0 v1 v2 where v: "v = (v0, v1, v2)" by (cases v)
  have "sq_norm (quat_apply q v)
      = (x * x + y * y + z * z + w * w) * (x * x + y * y + z * z + w * w)
          * (v0 * v0 + v1 * v1 + v2 * v2)"
    unfolding q v by (simp add: sq_norm_def algebra_simps)
  with assms show ?thesis by (simp add: q v unit_quat_def sq_norm_def)
qed

lemma vsunf_sq_norm:
  assumes "vsunf dlong decl roll = Inr vs" and "v \<in> set vs"
  shows "sq_norm v = 1"
proof -
  from assms(1) obtain rr rfinal where
    m: "rotation_mul rr (from_euler X (neg_angles dlong)) = Inr rfinal"
    and vs: "vs = rotation_apply rfinal (0, 0, - 1)"
    by (auto simp: vsunf_def Let_def split: sum.splits)
  have "list_all unit_quat (quat rfinal)"
    using m by (rule rotation_mul_result)
  with assms(2) obtain q where "unit_quat q" and "v = quat_apply q (0, 0, - 1)"
    by (auto simp: vs rotation_apply_def list_all_iff)
  then show ?thesis
    by (simp add: quat_apply_sq_norm) (simp add: sq_norm_def)
qed

lemma sq_norm_components:
  assumes "sq_norm v = 1"
  shows "\<bar>vec_x v\<bar> \<le> 1" and "\<bar>vec_y v\<bar> \<le> 1" and "\<bar>vec_z v\<bar> \<le> 1"
proof -
  obtain x y z where v: "v = (x, y, z)" by (cases v)
  from assms have e: "x\<^sup>2 + y\<^sup>2 + z\<^sup>2 = 1"
    by (simp add: v sq_norm_def power2_eq_square)
  have "x\<^sup>2 \<le> 1" "y\<^sup>2 \<le> 1" "z\<^sup>2 \<le> 1"
    using e zero_le_power2 [of x] zero_le_power2 [of y] zero_le_power2 [of z] by linarith+
  then show "\<bar>vec_x v\<bar> \<le> 1" and "\<bar>vec_y v\<bar> \<le> 1" and "\<bar>vec_z v\<bar> \<le> 1"
    by (simp_all add: v abs_le_square_iff [of _ 1, simplified])
qed

lemma spec_sun_vector_sq_norm: "sq_norm (spec_sun_vector dlong decl roll) = 1"
  by (rule vsunf_sq_norm [OF vsunf_scalar]) simp

section \<open>Bounds on \<open>pi\<close>\<close>

lemma arctan_upper:
  assumes "0 \<le> x"
  shows "arctan x \<le> x - x ^ 3 / 3 + x ^ 5 / 5"
proof -
  define h where "h = (\<lambda>x::real. x - x ^ 3 / 3 + x ^ 5 / 5 - arctan x)"
  have d: "\<exists>y. (h has_real_derivative y) (at t) \<and> 0 \<le> y" for t :: real
  proof (intro exI conjI)
    show "(h has_real_derivative (t ^ 6 / (1 + t\<^sup>2))) (at t)"
      unfolding h_def
      by (auto intro!: derivative_eq_intros simp: field_simps add_nonneg_eq_0_iff)
    show "0 \<le> t ^ 6 / (1 + t\<^sup>2)"
      by (intro divide_nonneg_pos) (auto intro: add_pos_nonneg)
  qed
  have "h 0 \<le> h x"
    by (rule DERIV_nonneg_imp_nondecreasing [OF assms]) (use d in blast)
  then show ?thesis by (simp add: h_def)
qed

lemma arctan_lower:
  assumes "0 \<le> x"
  shows "x - x ^ 3 / 3 + x ^ 5 / 5 - x ^ 7 / 7 \<le> arctan x"
proof -
  define h where "h = (\<lambda>x::real. arctan x - (x - x ^ 3 / 3 + x ^ 5 / 5 - x ^ 7 / 7))"
  have d: "\<exists>y. (h has_real_derivative y) (at t) \<and> 0 \<le> y" for t :: real
  proof (intro exI conjI)
    show "(h has_real_derivative (t ^ 8 / (1 + t\<^sup>2))) (at t)"
      unfolding h_def
      by (auto intro!: derivative_eq_intros simp: field_simps add_nonneg_eq_0_iff)
    show "0 \<le> t ^ 8 / (1 + t\<^sup>2)"
      by (intro divide_nonneg_pos) (auto intro: add_pos_nonneg)
  qed
  have "h 0 \<le> h x"
    by (rule DERIV_nonneg_imp_nondecreasing [OF assms]) (use d in blast)
  then show ?thesis by (simp add: h_def)
qed

lemma pi_bounds: "3.14159 < pi" "pi < 3.1416"
proof -
  have e: "pi = 20 * arctan (1 / 7) + 8 * arctan (3 / 79)"
    using machin_Euler by simp
  have l1: "(1/7) - (1/7) ^ 3 / 3 + (1/7) ^ 5 / 5 - (1/7) ^ 7 / 7 \<le> arctan (1 / 7)"
    by (rule arctan_lower) simp
  have l2: "(3/79) - (3/79) ^ 3 / 3 + (3/79) ^ 5 / 5 - (3/79) ^ 7 / 7 \<le> arctan (3 / 79)"
    by (rule arctan_lower) simp
  have u1: "arctan (1 / 7) \<le> (1/7) - (1/7) ^ 3 / 3 + (1/7) ^ 5 / 5"
    by (rule arctan_upper) simp
  have u2: "arctan (3 / 79) \<le> (3/79) - (3/79) ^ 3 / 3 + (3/79) ^ 5 / 5"
    by (rule arctan_upper) simp
  show "3.14159 < pi"
    using l1 l2 unfolding e by (simp add: power_divide)
  show "pi < 3.1416"
    using u1 u2 unfolding e by (simp add: power_divide)
qed


section \<open>The Sun-angle evaluator\<close>

lemma astype_int_np_sign: "astype_int (np_sign x) = spec_sign x"
proof -
  have "\<lceil>- 1 :: real\<rceil> = - 1"
    using ceiling_of_int [of "- 1", where ?'a = real] by simp
  then show ?thesis
    by (simp add: astype_int_def np_sign_def spec_sign_def)
qed

lemma np_arcsin_unit:
  assumes "sq_norm v = 1"
  shows "np_arcsin (vec_y v) = Some (arcsin (vec_y v))"
    and "np_arcsin (vec_z v) = Some (arcsin (vec_z v))"
  using sq_norm_components(2,3) [OF assms] by (simp_all add: np_arcsin_def abs_le_iff)

lemma critical_angles_of_unit:
  assumes "\<forall>v\<in>set vs. sq_norm v = 1"
  shows "critical_angles_of vs =
    (map (\<lambda>v. spec_sign (vec_x v)) vs,
     map (\<lambda>v. Some (57.296 * arcsin (vec_z v))) vs,
     map (\<lambda>v. Some (57.296 * \<bar>arcsin (vec_y v)\<bar>)) vs)"
  using assms
  by (simp add: critical_angles_of_def astype_int_np_sign np_arcsin_unit fl_times_def np_abs_def)

lemma get_critical_angles_scalar:
  "get_critical_angles (Scalar dlong) (Scalar decl) (Scalar roll) =
     Inr ([spec_sign (vec_x (spec_sun_vector dlong decl roll))],
          [Some (57.296 * arcsin (vec_z (spec_sun_vector dlong decl roll)))],
          [Some (57.296 * \<bar>arcsin (vec_y (spec_sun_vector dlong decl roll))\<bar>)])"
  by (simp add: get_critical_angles_def vsunf_scalar critical_angles_of_unit
      spec_sun_vector_sq_norm)

lemma spec_sun_vector_origin: "spec_sun_vector 0 0 0 = (0, 0, - 1)"
  by (simp add: spec_sun_vector_def spec_Rx_def spec_Ry_def spec_Rz_def)

text \<open>
  C1.  For all real \<open>dlong\<close>, \<open>decl\<close> and \<open>roll\<close>, \<^verbatim>\<open>get_critical_angles\<close> returns
  what the specification's evaluator gives: with \<open>v\<close> the image of \<open>(0, 0, -1)\<close> under
  \<open>Rz(-roll) \<circ> Ry(-decl) \<circ> Rx(-dlong)\<close> (the rotation by \<open>dlong\<close> applied first, the one
  by \<open>roll\<close> last), \<open>sign_x\<close> is the integer sign of \<open>vx\<close>, \<open>sun_angle\<close> is
  \<open>57.296 * arcsin vz\<close> and \<open>sun_angle_SC\<close> is \<open>57.296 * \<bar>arcsin vy\<bar>\<close>; none is NaN.
\<close>

theorem get_critical_angles_is_spec_evaluate:
  "get_critical_angles (Scalar dlong) (Scalar decl) (Scalar roll) =
     (case spec_evaluate dlong decl roll of
        (sign_x, sun_angle, sun_angle_SC) \<Rightarrow> Inr ([sign_x], [Some sun_angle], [Some sun_angle_SC]))"
  by (simp add: get_critical_angles_scalar spec_evaluate_def Let_def)

theorem get_critical_angles_is_spec_evaluate_witness:
  "get_critical_angles (Scalar 0) (Scalar 0) (Scalar 0) = Inr ([0], [Some (- (57.296 * pi / 2))], [Some 0])"
  using get_critical_angles_is_spec_evaluate [of 0 0 0]
  by (simp add: spec_evaluate_def spec_sun_vector_origin spec_sign_def)




text \<open>
  C7.  At \<open>dlong = 0\<close>, \<open>decl = 0\<close>, \<open>roll = 0\<close> the Sun vector in spacecraft coordinates is
  \<open>(0, 0, -1)\<close>, \<open>sign_x\<close> is exactly 0, \<open>sun_angle_SC\<close> is 0 and \<open>sun_angle\<close> is within
  a thousandth of a degree of \<open>-90\<close>.
\<close>

theorem evaluate_origin:
  "vsunf (Scalar 0) (Scalar 0) (Scalar 0) = Inr [(0, 0, - 1)]
   \<and> (\<exists>sun_angle.
        get_critical_angles (Scalar 0) (Scalar 0) (Scalar 0) = Inr ([0], [Some sun_angle], [Some 0])
        \<and> \<bar>sun_angle - (- 90)\<bar> < 1 / 1000)"
proof -
  have "\<bar>- (57.296 * pi / 2) - (- 90)\<bar> < 1 / 1000"
    using pi_bounds by (simp add: abs_less_iff)
  then show ?thesis
    using vsunf_scalar [of 0 0 0] get_critical_angles_scalar [of 0 0 0]
    by (simp add: spec_sun_vector_origin spec_sign_def)
qed


lemma get_critical_angles_of_vsunf:
  assumes "vsunf dlong decl roll = Inr vs"
  shows "get_critical_angles dlong decl roll =
    Inr (map (\<lambda>v. spec_sign (vec_x v)) vs,
         map (\<lambda>v. Some (57.296 * arcsin (vec_z v))) vs,
         map (\<lambda>v. Some (57.296 * \<bar>arcsin (vec_y v)\<bar>)) vs)"
proof -
  have "\<forall>v\<in>set vs. sq_norm v = 1"
    using vsunf_sq_norm [OF assms] by blast
  then show ?thesis
    by (simp add: get_critical_angles_def assms critical_angles_of_unit)
qed



text \<open>
  C8.  For sequences \<open>dlong\<close>, \<open>decl\<close>, \<open>roll\<close> of one length, \<^verbatim>\<open>get_critical_angles\<close>
  returns three sequences of that length, and their entries at position \<open>i\<close> are what the
  function returns for the scalars \<open>dlong[i]\<close>, \<open>decl[i]\<close>, \<open>roll[i]\<close>.
\<close>

theorem get_critical_angles_elementwise:
  assumes "length decl = length dlong" and "length roll = length dlong"
  shows "\<exists>sign_x sun_angle sun_angle_SC.
    get_critical_angles (Array1 dlong) (Array1 decl) (Array1 roll)
      = Inr (sign_x, sun_angle, sun_angle_SC)
    \<and> length sign_x = length dlong \<and> length sun_angle = length dlong
    \<and> length sun_angle_SC = length dlong
    \<and> (\<forall>i<length dlong.
          get_critical_angles (Scalar (dlong ! i)) (Scalar (decl ! i)) (Scalar (roll ! i))
            = Inr ([sign_x ! i], [sun_angle ! i], [sun_angle_SC ! i]))"
proof (intro exI conjI allI impI)
  let ?vs = "map (\<lambda>i. spec_sun_vector (dlong ! i) (decl ! i) (roll ! i)) [0..<length dlong]"
  show "get_critical_angles (Array1 dlong) (Array1 decl) (Array1 roll) =
    Inr (map (\<lambda>v. spec_sign (vec_x v)) ?vs,
         map (\<lambda>v. Some (57.296 * arcsin (vec_z v))) ?vs,
         map (\<lambda>v. Some (57.296 * \<bar>arcsin (vec_y v)\<bar>)) ?vs)"
    by (rule get_critical_angles_of_vsunf [OF vsunf_arrays [OF assms]])
  fix i assume "i < length dlong"
  then show "get_critical_angles (Scalar (dlong ! i)) (Scalar (decl ! i)) (Scalar (roll ! i))
      = Inr ([map (\<lambda>v. spec_sign (vec_x v)) ?vs ! i],
             [map (\<lambda>v. Some (57.296 * arcsin (vec_z v))) ?vs ! i],
             [map (\<lambda>v. Some (57.296 * \<bar>arcsin (vec_y v)\<bar>)) ?vs ! i])"
    by (simp add: get_critical_angles_scalar)
qed simp_all

theorem get_critical_angles_elementwise_witness:
  "\<exists>sign_x sun_angle sun_angle_SC.
    get_critical_angles (Array1 [0, 10]) (Array1 [0, 20]) (Array1 [0, 30])
      = Inr (sign_x, sun_angle, sun_angle_SC)
    \<and> length sign_x = 2 \<and> length sun_angle = 2 \<and> length sun_angle_SC = 2
    \<and> get_critical_angles (Scalar 0) (Scalar 0) (Scalar 0)
         = Inr ([sign_x ! 0], [sun_angle ! 0], [sun_angle_SC ! 0])
    \<and> get_critical_angles (Scalar 10) (Scalar 20) (Scalar 30)
         = Inr ([sign_x ! 1], [sun_angle ! 1], [sun_angle_SC ! 1])"
  using get_critical_angles_elementwise [of "[0, 20]" "[0, 10]" "[0, 30]"]
  by (simp add: numeral_2_eq_2 less_Suc_eq all_conj_distrib)

section \<open>The allowability predicate\<close>

lemma conditions_at_spec:
  "conditions_at ylim dlong decl roll =
     (spec_sign (vec_x (spec_sun_vector dlong decl roll)) > 0
      \<and> 57.296 * arcsin (vec_z (spec_sun_vector dlong decl roll)) < - 5
      \<and> 57.296 * \<bar>arcsin (vec_y (spec_sun_vector dlong decl roll))\<bar> < ylim)"
  by (simp add: conditions_at_def get_critical_angles_scalar fl_less_def)

lemma conditions_maps:
  "conditions ylim (map f vs) (map g vs) (map h vs)
     = map (\<lambda>v. f v > 0 \<and> fl_less (g v) (- 5) \<and> fl_less (h v) ylim) vs"
  by (induction vs) (simp_all add: conditions_def)

lemma conditions_of_vsunf:
  assumes "vsunf dlong decl roll = Inr (map w [0..<n])"
    and "\<And>i. i < n \<Longrightarrow> w i = spec_sun_vector (d i) (e i) (r i)"
  shows "\<exists>sign_x sun_angle sun_angle_SC.
    get_critical_angles dlong decl roll = Inr (sign_x, sun_angle, sun_angle_SC)
    \<and> conditions ylim sign_x sun_angle sun_angle_SC
        = map (\<lambda>i. conditions_at ylim (d i) (e i) (r i)) [0..<n]"
proof (intro exI conjI)
  show "get_critical_angles dlong decl roll =
    Inr (map (\<lambda>v. spec_sign (vec_x v)) (map w [0..<n]),
         map (\<lambda>v. Some (57.296 * arcsin (vec_z v))) (map w [0..<n]),
         map (\<lambda>v. Some (57.296 * \<bar>arcsin (vec_y v)\<bar>)) (map w [0..<n]))"
    by (rule get_critical_angles_of_vsunf [OF assms(1)])
  show "conditions ylim (map (\<lambda>v. spec_sign (vec_x v)) (map w [0..<n]))
      (map (\<lambda>v. Some (57.296 * arcsin (vec_z v))) (map w [0..<n]))
      (map (\<lambda>v. Some (57.296 * \<bar>arcsin (vec_y v)\<bar>)) (map w [0..<n]))
    = map (\<lambda>i. conditions_at ylim (d i) (e i) (r i)) [0..<n]"
    unfolding conditions_maps
    by (rule nth_equalityI) (simp_all add: assms(2) conditions_at_spec fl_less_def)
qed

lemma nth_append3:
  assumes "length xs = n" and "length ys = n" and "length zs = n" and "k < n"
  shows "(xs @ ys @ zs) ! k = xs ! k"
    and "(xs @ ys @ zs) ! (n + k) = ys ! k"
    and "(xs @ ys @ zs) ! (2 * n + k) = zs ! k"
  using assms by (simp_all add: nth_append)

lemma all_axis0_nth:
  assumes "k < n"
  shows "all_axis0 n (map c [0..<3 * n]) ! k = (c k \<and> c (n + k) \<and> c (2 * n + k))"
  using assms by (simp add: all_axis0_def)


lemma all_axis0_stacked:
  assumes "length dl = n" and "length de = n" and "length rs = n"
  shows "all_axis0 n
      (map (\<lambda>i. conditions_at ylim ((map (\<lambda>d. d - ndays) dl @ dl @ map (\<lambda>d. d + ndays) dl) ! i)
                  ((de @ de @ de) ! i) ((rs @ rs @ rs) ! i)) [0..<3 * n])
    = map (\<lambda>k. sector_ok ylim ndays (dl ! k) (de ! k) (rs ! k)) [0..<n]"
proof (rule nth_equalityI)
  show "length (all_axis0 n
      (map (\<lambda>i. conditions_at ylim ((map (\<lambda>d. d - ndays) dl @ dl @ map (\<lambda>d. d + ndays) dl) ! i)
                  ((de @ de @ de) ! i) ((rs @ rs @ rs) ! i)) [0..<3 * n]))
    = length (map (\<lambda>k. sector_ok ylim ndays (dl ! k) (de ! k) (rs ! k)) [0..<n])"
    by (simp add: all_axis0_def)
next
  fix k
  assume "k < length (all_axis0 n
      (map (\<lambda>i. conditions_at ylim ((map (\<lambda>d. d - ndays) dl @ dl @ map (\<lambda>d. d + ndays) dl) ! i)
                  ((de @ de @ de) ! i) ((rs @ rs @ rs) ! i)) [0..<3 * n]))"
  then have k: "k < n" by (simp add: all_axis0_def)
  have l: "length (map (\<lambda>d. d - ndays) dl) = n" "length (map (\<lambda>d. d + ndays) dl) = n"
    using assms(1) by simp_all
  note a = nth_append3 [OF l(1) assms(1) l(2) k]
    nth_append3 [OF assms(2) assms(2) assms(2) k]
    nth_append3 [OF assms(3) assms(3) assms(3) k]
  show "all_axis0 n
      (map (\<lambda>i. conditions_at ylim ((map (\<lambda>d. d - ndays) dl @ dl @ map (\<lambda>d. d + ndays) dl) ! i)
                  ((de @ de @ de) ! i) ((rs @ rs @ rs) ! i)) [0..<3 * n]) ! k
    = map (\<lambda>k. sector_ok ylim ndays (dl ! k) (de ! k) (rs ! k)) [0..<n] ! k"
    unfolding all_axis0_nth [OF k] a
    using k assms(1) by (simp add: sector_ok_def)
qed

lemma calculate_allowable_map_scalar_roll:
  assumes r: "scalar_roll roll = Some r"
    and len: "length (elems decl) = length (elems dlong)"
    and wf: "prod_list (shape dlong) = length (elems dlong)"
  shows "calculate_allowable_map dlong decl roll ylim ndays =
    Inr \<lparr>shape = shape dlong,
         elems = map (\<lambda>k. sector_ok ylim ndays (elems dlong ! k) (elems decl ! k) r)
                   [0..<length (elems dlong)]\<rparr>"
proof -
  define n where "n = length (elems dlong)"
  define dl3 where "dl3 = map (\<lambda>d. d - ndays) (elems dlong) @ elems dlong
    @ map (\<lambda>d. d + ndays) (elems dlong)"
  define de3 where "de3 = elems decl @ elems decl @ elems decl"
  define rs where "rs = replicate n r"
  have l3: "length dl3 = 3 * n" "length de3 = 3 * n"
    by (simp_all add: dl3_def de3_def n_def len)
  have v: "vsunf (Array1 dl3) (Array1 de3) (Scalar r)
      = Inr (map (\<lambda>i. spec_sun_vector (dl3 ! i) (de3 ! i) r) [0..<3 * n])"
    using vsunf_scalar_roll [of de3 dl3 r] l3 by simp
  obtain sign_x sun_angle sun_angle_SC where
    g: "get_critical_angles (Array1 dl3) (Array1 de3) (Scalar r)
          = Inr (sign_x, sun_angle, sun_angle_SC)"
    and c: "conditions ylim sign_x sun_angle sun_angle_SC
          = map (\<lambda>i. conditions_at ylim (dl3 ! i) (de3 ! i) r) [0..<3 * n]"
    using conditions_of_vsunf [OF v, of "\<lambda>i. dl3 ! i" "\<lambda>i. de3 ! i" "\<lambda>i. r" ylim] by auto
  have c': "map (\<lambda>i. conditions_at ylim (dl3 ! i) (de3 ! i) r) [0..<3 * n]
      = map (\<lambda>i. conditions_at ylim (dl3 ! i) (de3 ! i) ((rs @ rs @ rs) ! i)) [0..<3 * n]"
    by (rule nth_equalityI) (simp_all add: rs_def nth_append)
  have e: "all_axis0 n (conditions ylim sign_x sun_angle sun_angle_SC)
      = map (\<lambda>k. sector_ok ylim ndays (elems dlong ! k) (elems decl ! k) r) [0..<n]"
  proof -
    have "all_axis0 n (conditions ylim sign_x sun_angle sun_angle_SC)
        = all_axis0 n
            (map (\<lambda>i. conditions_at ylim (dl3 ! i) (de3 ! i) ((rs @ rs @ rs) ! i)) [0..<3 * n])"
      by (simp only: c c')
    also have "\<dots> = map (\<lambda>k. sector_ok ylim ndays (elems dlong ! k) (elems decl ! k) (rs ! k))
        [0..<n]"
      unfolding dl3_def de3_def
      by (rule all_axis0_stacked) (simp_all add: n_def len rs_def)
    also have "\<dots> = map (\<lambda>k. sector_ok ylim ndays (elems dlong ! k) (elems decl ! k) r) [0..<n]"
      by (simp add: rs_def)
    finally show ?thesis .
  qed
  have lb: "length (conditions ylim sign_x sun_angle sun_angle_SC) = 3 * n"
    by (simp add: c)
  show ?thesis
    unfolding calculate_allowable_map_def Let_def r
    using g e lb
    by (simp add: stack3_def array_map_def dl3_def de3_def wf n_def)
qed







lemma spec_sun_vector_roll_90:
  "spec_sun_vector (- t) 0 90 = (sin (t * pi / 180), 0, - cos (t * pi / 180))"
proof -
  have "(90::real) * pi / 180 = pi / 2" by simp
  then show ?thesis
    by (simp add: spec_sun_vector_def spec_Rx_def spec_Ry_def spec_Rz_def)
qed

lemma conditions_at_roll_90:
  assumes "0 < t" and "t \<le> 30"
  shows "conditions_at 15 (- t) 0 90"
proof -
  define x where "x = t * pi / 180"
  have x: "0 < x" "x \<le> pi / 6"
    using assms by (simp_all add: x_def)
  have "x < pi" using x(2) pi_gt_zero by linarith
  then have s: "0 < sin x" using x(1) by (simp add: sin_gt_zero)
  have "cos (pi / 6) \<le> cos x"
    using x \<open>x < pi\<close> by (intro cos_monotone_0_pi_le) simp_all
  then have c30: "sqrt 3 / 2 \<le> cos x"
    by (simp only: cos_30)
  have s3: "1 \<le> sqrt 3" by simp
  have c: "1 / 2 \<le> cos x"
    using c30 s3 by linarith
  have "arcsin (1 / 2) \<le> arcsin (cos x)"
    using c by (intro arcsin_le_arcsin) simp_all
  then have "pi / 6 \<le> arcsin (cos x)" by simp
  moreover have "3 < pi"
    using pi_bounds(1) by simp
  ultimately have a: "1 / 2 < arcsin (cos x)"
    by linarith
  have "arcsin (- cos x) = - arcsin (cos x)"
    by (rule arcsin_minus) simp_all
  then show ?thesis
    using s a
    by (simp add: conditions_at_spec spec_sun_vector_roll_90 x_def [symmetric] spec_sign_def)
qed




lemma not_conditions_at_origin: "\<not> conditions_at ylim 0 0 0"
  by (simp add: conditions_at_spec spec_sun_vector_origin spec_sign_def)





section \<open>The range reporter\<close>

lemma check_day_line:
  "check_day dlong decl roll ylim i =
     Inr \<lparr>day = i,
          line_sign_x = spec_sign (vec_x (spec_sun_vector (dlong + real_of_int i) decl roll)),
          line_sun_angle =
            Some (57.296 * arcsin (vec_z (spec_sun_vector (dlong + real_of_int i) decl roll))),
          line_sun_angle_SC =
            Some (57.296 * \<bar>arcsin (vec_y (spec_sun_vector (dlong + real_of_int i) decl roll))\<bar>),
          cx = (if spec_sign (vec_x (spec_sun_vector (dlong + real_of_int i) decl roll)) < 0
                then ''Sun on -X'' else []),
          cy = (if ylim
                  < 57.296 * \<bar>arcsin (vec_y (spec_sun_vector (dlong + real_of_int i) decl roll))\<bar>
                then ''Sun > Y angle limit'' else []),
          cz = (if - 5
                  < 57.296 * arcsin (vec_z (spec_sun_vector (dlong + real_of_int i) decl roll))
                then ''Sun above sunshade'' else [])\<rparr>"
  by (simp add: check_day_def get_critical_angles_scalar fl_greater_def)

lemma check_range_loop_lines:
  "\<exists>lines. check_range_loop dlong decl roll ylim days out = (out @ lines, None)
     \<and> map day lines = days
     \<and> (\<forall>l\<in>set lines. check_day dlong decl roll ylim (day l) = Inr l)"
proof (induction days arbitrary: out)
  case Nil
  then show ?case by simp
next
  case (Cons i days)
  obtain l where l: "check_day dlong decl roll ylim i = Inr l" and d: "day l = i"
    by (simp add: check_day_line)
  from Cons [of "out @ [l]"] obtain lines where
    "check_range_loop dlong decl roll ylim days (out @ [l]) = ((out @ [l]) @ lines, None)"
    and "map day lines = days"
    and "\<forall>l\<in>set lines. check_day dlong decl roll ylim (day l) = Inr l"
    by blast
  then show ?case
    using l d by (intro exI [of _ "l # lines"]) simp
qed


lemma not_conditions_at_boundary:
  assumes "get_critical_angles (Scalar dlong) (Scalar decl) (Scalar roll)
    = Inr ([sign_x], [sun_angle], [sun_angle_SC])"
    and "sign_x = 0 \<or> sun_angle = Some (- 5) \<or> sun_angle_SC = Some ylim"
  shows "\<not> conditions_at ylim dlong decl roll"
  using assms by (auto simp: conditions_at_def fl_less_def)

lemma not_allowable_at_point:
  assumes "i = - ndays \<or> i = 0 \<or> i = ndays"
    and "\<not> conditions_at ylim (dlong + real_of_int i) decl roll"
  shows "calculate_allowable_map (scalar_array dlong) (scalar_array decl) (PyFloat roll) ylim
    (real_of_int ndays) = Inr (scalar_array False)"
proof -
  have "\<not> sector_ok ylim (real_of_int ndays) dlong decl roll"
    using assms by (auto simp: sector_ok_def)
  then show ?thesis
    by (subst calculate_allowable_map_scalar_roll [where r = roll])
      (simp_all add: scalar_array_def)
qed

text \<open>
  C10.  \<^verbatim>\<open>check_range\<close> prints one line for each day of \<open>-ndays, \<dots>, ndays\<close>, and on the
  line of day \<open>i\<close> the alarms are set by strict inequalities: "Sun on -X" iff
  \<open>sign_x < 0\<close>, "Sun above sunshade" iff \<open>sun_angle > -5\<close>, "Sun > Y angle limit" iff
  \<open>sun_angle_SC > ylim\<close>.  These are not the negations of the conditions of
  \<^verbatim>\<open>calculate_allowable_map\<close>: when \<open>sign_x = 0\<close>, \<open>sun_angle = -5\<close> or
  \<open>sun_angle_SC = ylim\<close> on a day, that alarm is not set while the conditions fail there,
  and when the day is one of \<open>-ndays\<close>, \<open>0\<close>, \<open>ndays\<close>, \<^verbatim>\<open>calculate_allowable_map\<close> returns
  false for the orientation.
\<close>

theorem check_range_alarms_are_strict:
  "(\<exists>lines. check_range dlong decl roll ylim ndays = (lines, None)
       \<and> map day lines = [- ndays..ndays]
       \<and> (\<forall>l\<in>set lines. check_day dlong decl roll ylim (day l) = Inr l))
   \<and> (\<exists>sign_x sun_angle sun_angle_SC l.
         get_critical_angles (Scalar (dlong + real_of_int i)) (Scalar decl) (Scalar roll)
           = Inr ([sign_x], [sun_angle], [sun_angle_SC])
         \<and> check_day dlong decl roll ylim i = Inr l
         \<and> (cx l = ''Sun on -X'' \<longleftrightarrow> sign_x < 0) \<and> (cx l = [] \<longleftrightarrow> \<not> sign_x < 0)
         \<and> (cz l = ''Sun above sunshade'' \<longleftrightarrow> fl_greater sun_angle (- 5))
         \<and> (cz l = [] \<longleftrightarrow> \<not> fl_greater sun_angle (- 5))
         \<and> (cy l = ''Sun > Y angle limit'' \<longleftrightarrow> fl_greater sun_angle_SC ylim)
         \<and> (cy l = [] \<longleftrightarrow> \<not> fl_greater sun_angle_SC ylim)
         \<and> (sign_x = 0 \<longrightarrow>
              cx l = [] \<and> \<not> conditions_at ylim (dlong + real_of_int i) decl roll)
         \<and> (sun_angle = Some (- 5) \<longrightarrow>
              cz l = [] \<and> \<not> conditions_at ylim (dlong + real_of_int i) decl roll)
         \<and> (sun_angle_SC = Some ylim \<longrightarrow>
              cy l = [] \<and> \<not> conditions_at ylim (dlong + real_of_int i) decl roll))
   \<and> ((i = - ndays \<or> i = 0 \<or> i = ndays)
        \<and> \<not> conditions_at ylim (dlong + real_of_int i) decl roll \<longrightarrow>
      calculate_allowable_map (scalar_array dlong) (scalar_array decl) (PyFloat roll) ylim
        (real_of_int ndays) = Inr (scalar_array False))"
proof (intro conjI)
  show "\<exists>lines. check_range dlong decl roll ylim ndays = (lines, None)
       \<and> map day lines = [- ndays..ndays]
       \<and> (\<forall>l\<in>set lines. check_day dlong decl roll ylim (day l) = Inr l)"
    using check_range_loop_lines [of dlong decl roll ylim "[- ndays..ndays]" "[]"]
    by (simp add: check_range_def)
next
  let ?g = "get_critical_angles (Scalar (dlong + real_of_int i)) (Scalar decl) (Scalar roll)"
  obtain sign_x sun_angle sun_angle_SC where
    g: "?g = Inr ([sign_x], [sun_angle], [sun_angle_SC])"
    by (simp add: get_critical_angles_scalar)
  define l where "l = \<lparr>day = i, line_sign_x = sign_x, line_sun_angle = sun_angle,
    line_sun_angle_SC = sun_angle_SC,
    cx = (if sign_x < 0 then ''Sun on -X'' else []),
    cy = (if fl_greater sun_angle_SC ylim then ''Sun > Y angle limit'' else []),
    cz = (if fl_greater sun_angle (- 5) then ''Sun above sunshade'' else [])\<rparr>"
  have d: "check_day dlong decl roll ylim i = Inr l"
    by (simp add: check_day_def g l_def)
  have b: "\<not> conditions_at ylim (dlong + real_of_int i) decl roll"
    if "sign_x = 0 \<or> sun_angle = Some (- 5) \<or> sun_angle_SC = Some ylim"
    using not_conditions_at_boundary [OF g that] .
  have a: "(cx l = ''Sun on -X'' \<longleftrightarrow> sign_x < 0) \<and> (cx l = [] \<longleftrightarrow> \<not> sign_x < 0)
      \<and> (cz l = ''Sun above sunshade'' \<longleftrightarrow> fl_greater sun_angle (- 5))
      \<and> (cz l = [] \<longleftrightarrow> \<not> fl_greater sun_angle (- 5))
      \<and> (cy l = ''Sun > Y angle limit'' \<longleftrightarrow> fl_greater sun_angle_SC ylim)
      \<and> (cy l = [] \<longleftrightarrow> \<not> fl_greater sun_angle_SC ylim)"
    by (simp add: l_def)
  have c: "sign_x = 0 \<longrightarrow> cx l = []" "sun_angle = Some (- 5) \<longrightarrow> cz l = []"
    "sun_angle_SC = Some ylim \<longrightarrow> cy l = []"
    by (simp_all add: l_def fl_greater_def)
  show "\<exists>sign_x sun_angle sun_angle_SC l.
         ?g = Inr ([sign_x], [sun_angle], [sun_angle_SC])
         \<and> check_day dlong decl roll ylim i = Inr l
         \<and> (cx l = ''Sun on -X'' \<longleftrightarrow> sign_x < 0) \<and> (cx l = [] \<longleftrightarrow> \<not> sign_x < 0)
         \<and> (cz l = ''Sun above sunshade'' \<longleftrightarrow> fl_greater sun_angle (- 5))
         \<and> (cz l = [] \<longleftrightarrow> \<not> fl_greater sun_angle (- 5))
         \<and> (cy l = ''Sun > Y angle limit'' \<longleftrightarrow> fl_greater sun_angle_SC ylim)
         \<and> (cy l = [] \<longleftrightarrow> \<not> fl_greater sun_angle_SC ylim)
         \<and> (sign_x = 0 \<longrightarrow>
              cx l = [] \<and> \<not> conditions_at ylim (dlong + real_of_int i) decl roll)
         \<and> (sun_angle = Some (- 5) \<longrightarrow>
              cz l = [] \<and> \<not> conditions_at ylim (dlong + real_of_int i) decl roll)
         \<and> (sun_angle_SC = Some ylim \<longrightarrow>
              cy l = [] \<and> \<not> conditions_at ylim (dlong + real_of_int i) decl roll)"
    using g d a b c by blast
next
  show "(i = - ndays \<or> i = 0 \<or> i = ndays)
        \<and> \<not> conditions_at ylim (dlong + real_of_int i) decl roll \<longrightarrow>
      calculate_allowable_map (scalar_array dlong) (scalar_array decl) (PyFloat roll) ylim
        (real_of_int ndays) = Inr (scalar_array False)"
    using not_allowable_at_point by blast
qed

theorem check_range_alarms_are_strict_witness:
  "(\<exists>lines. check_range 0 0 0 15 14 = (lines, None) \<and> map day lines = [- 14..14])
   \<and> get_critical_angles (Scalar 0) (Scalar 0) (Scalar 0)
        = Inr ([0], [Some (- (57.296 * pi / 2))], [Some 0])
   \<and> (\<exists>l. check_day 0 0 0 15 0 = Inr l \<and> cx l = [] \<and> cy l = [] \<and> cz l = [])
   \<and> \<not> conditions_at 15 0 0 0
   \<and> calculate_allowable_map (scalar_array 0) (scalar_array 0) (PyFloat 0) 15 14
        = Inr (scalar_array False)"
proof -
  have g: "get_critical_angles (Scalar 0) (Scalar 0) (Scalar 0)
      = Inr ([0], [Some (- (57.296 * pi / 2))], [Some 0])"
    by (simp add: get_critical_angles_scalar spec_sun_vector_origin spec_sign_def)
  have p: "\<not> fl_greater (Some (- (57.296 * pi / 2))) (- 5)"
    using pi_ge_two by (simp add: fl_greater_def)
  have q: "\<not> fl_greater (Some 0) 15"
    by (simp add: fl_greater_def)
  show ?thesis
    using check_range_alarms_are_strict [of 0 0 0 15 14 0] g p q
    by auto
qed

section \<open>The grid builder\<close>

lemma map_block:
  "map (\<lambda>k. f (k div m) (k mod m)) [n * m..<n * m + m] = map (f n) [0..<m]"
proof (rule nth_equalityI)
  show "length (map (\<lambda>k. f (k div m) (k mod m)) [n * m..<n * m + m]) = length (map (f n) [0..<m])"
    by simp
next
  fix i
  assume "i < length (map (\<lambda>k. f (k div m) (k mod m)) [n * m..<n * m + m])"
  then have i: "i < m" by simp
  then have "(n * m + i) div m = n" and "(n * m + i) mod m = i"
    by simp_all
  then show "map (\<lambda>k. f (k div m) (k mod m)) [n * m..<n * m + m] ! i = map (f n) [0..<m] ! i"
    using i by simp
qed

lemma concat_rows:
  "concat (map (\<lambda>i. map (f i) [0..<m]) [0..<n]) = map (\<lambda>k. f (k div m) (k mod m)) [0..<n * m]"
proof (induction n)
  case 0
  then show ?case by simp
next
  case (Suc n)
  have "[0..<Suc n * m] = [0..<n * m] @ [n * m..<n * m + m]"
    using upt_add_eq_append [of 0 "n * m" m] by (simp add: add.commute)
  then have "map (\<lambda>k. f (k div m) (k mod m)) [0..<Suc n * m]
      = map (\<lambda>k. f (k div m) (k mod m)) [0..<n * m] @ map (f n) [0..<m]"
    by (simp only: map_append map_block)
  then show ?case
    using Suc by simp
qed


lemma of_rows_grid:
  assumes "0 < n"
  shows "of_rows (map (\<lambda>i. map (f i) [0..<m]) [0..<n])
    = \<lparr>shape = [n, m], elems = map (\<lambda>k. f (k div m) (k mod m)) [0..<n * m]\<rparr>"
proof -
  have "[0..<n] = 0 # [Suc 0..<n]"
    using assms by (simp add: upt_conv_Cons)
  then have "(case map (\<lambda>i. map (f i) [0..<m]) [0..<n] of [] \<Rightarrow> 0 | r # _ \<Rightarrow> length r) = m"
    by simp
  then show ?thesis
    by (simp add: of_rows_def concat_rows)
qed

lemma step2_nth: "step2 xs = map (\<lambda>k. xs ! (2 * k)) [0..<(length xs + 1) div 2]"
proof (induction xs rule: step2.induct)
  case 1
  then show ?case by simp
next
  case (2 x)
  then show ?case by simp
next
  case (3 x y xs)
  have "[0..<(length (x # y # xs) + 1) div 2] = 0 # map Suc [0..<(length xs + 1) div 2]"
    by (simp add: upt_conv_Cons map_Suc_upt)
  then show ?case
    using 3 by (simp add: comp_def)
qed

lemma step2_map: "step2 (map f xs) = map f (step2 xs)"
  by (induction xs rule: step2.induct) simp_all

lemma step2_upto:
  "step2 [a..b] = map (\<lambda>k. a + 2 * int k) [0..<nat ((b - a + 2) div 2)]"
proof -
  have l: "(length [a..b] + 1) div 2 = nat ((b - a + 2) div 2)"
    by (simp add: nat_div_distrib nat_add_distrib)
  show ?thesis
    unfolding step2_nth l
  proof (rule nth_equalityI)
    show "length (map (\<lambda>k. [a..b] ! (2 * k)) [0..<nat ((b - a + 2) div 2)])
        = length (map (\<lambda>k. a + 2 * int k) [0..<nat ((b - a + 2) div 2)])"
      by simp
  next
    fix k
    assume "k < length (map (\<lambda>k. [a..b] ! (2 * k)) [0..<nat ((b - a + 2) div 2)])"
    then have k: "k < nat ((b - a + 2) div 2)" by simp
    then have "a + int (2 * k) \<le> b" by linarith
    then have "[a..b] ! (2 * k) = a + int (2 * k)" by (rule nth_upto)
    then show "map (\<lambda>k. [a..b] ! (2 * k)) [0..<nat ((b - a + 2) div 2)] ! k
        = map (\<lambda>k. a + 2 * int k) [0..<nat ((b - a + 2) div 2)] ! k"
      using k by simp
  qed
qed

lemma step2_upto_dlong: "step2 [- 180..178] = map (\<lambda>k. - 180 + 2 * int k) [0..<180]"
  unfolding step2_upto by simp

lemma step2_upto_decl: "step2 [- 90..89] = map (\<lambda>k. - 90 + 2 * int k) [0..<90]"
  unfolding step2_upto by simp


lemma arange_rolls: "arange (- 180) 179 5 = map (\<lambda>k. - 180 + 5 * int k) [0..<72]"
  by (simp add: arange_def)

lemma grid_rows_dlong:
  "map (map real_of_int) (map step2 (step2 (fst (mgrid (- 180) 179 (- 90) 90))))
     = map (\<lambda>i. map (\<lambda>j. real_of_int (- 180 + 2 * int i)) [0..<90]) [0..<180]"
proof -
  have "fst (mgrid (- 180) 179 (- 90) 90) = map (\<lambda>i. map (\<lambda>j. i) [- 90..89]) [- 180..178]"
    by (simp add: mgrid_def del: upto_rec_numeral)
  then show ?thesis
    by (simp only: step2_map step2_upto_dlong step2_upto_decl map_map comp_def)
qed

lemma grid_rows_decl:
  "map (map real_of_int) (map step2 (step2 (snd (mgrid (- 180) 179 (- 90) 90))))
     = map (\<lambda>i. map (\<lambda>j. real_of_int (- 90 + 2 * int j)) [0..<90]) [0..<180]"
proof -
  have "snd (mgrid (- 180) 179 (- 90) 90) = map (\<lambda>i. map (\<lambda>j. j) [- 90..89]) [- 180..178]"
    by (simp add: mgrid_def del: upto_rec_numeral)
  then show ?thesis
    by (simp only: step2_map step2_upto_dlong step2_upto_decl map_map comp_def)
qed

lemma grid_dlong_closed:
  "grid_dlong = \<lparr>shape = [180, 90],
     elems = map (\<lambda>k. real_of_int (- 180 + 2 * int (k div 90))) [0..<16200]\<rparr>"
proof -
  have "(180::nat) * 90 = 16200" by simp
  then show ?thesis
    unfolding grid_dlong_def grid_rows_dlong
    using of_rows_grid [of 180 "\<lambda>i j. real_of_int (- 180 + 2 * int i)" 90]
    by (simp only: zero_less_numeral)
qed

lemma grid_decl_closed:
  "grid_decl = \<lparr>shape = [180, 90],
     elems = map (\<lambda>k. real_of_int (- 90 + 2 * int (k mod 90))) [0..<16200]\<rparr>"
proof -
  have "(180::nat) * 90 = 16200" by simp
  then show ?thesis
    unfolding grid_decl_def grid_rows_decl
    using of_rows_grid [of 180 "\<lambda>i j. real_of_int (- 90 + 2 * int j)" 90]
    by (simp only: zero_less_numeral)
qed

lemma zip_nth_upt:
  assumes "length xs = length ys"
  shows "zip xs ys = map (\<lambda>k. (xs ! k, ys ! k)) [0..<length xs]"
  using assms by (intro nth_equalityI) simp_all

lemma masked_nth:
  assumes "length (elems a) = length (elems m)"
  shows "masked a m = map (\<lambda>k. elems a ! k) (filter (\<lambda>k. elems m ! k) [0..<length (elems a)])"
  unfolding masked_def zip_nth_upt [OF assms]
  by (simp add: filter_map comp_def)

lemma count_true:
  "length (filter id ms) = length (filter (\<lambda>k. ms ! k) [0..<length ms])"
proof -
  have "filter id (map (\<lambda>k. ms ! k) [0..<length ms])
      = map (\<lambda>k. ms ! k) (filter (\<lambda>k. ms ! k) [0..<length ms])"
    by (simp add: filter_map comp_def)
  then show ?thesis
    by (metis length_map map_nth)
qed

lemma zip3_maps:
  "zip (map f ks) (zip (map g ks) (replicate (length ks) c)) = map (\<lambda>k. (f k, g k, c)) ks"
  by (induction ks) simp_all

lemma triples_closed:
  assumes "length (elems a) = length (elems m)" and "length (elems b) = length (elems m)"
  shows "triples a b m roll =
    map (\<lambda>k. [elems a ! k, elems b ! k, real_of_int roll])
      (filter (\<lambda>k. elems m ! k) [0..<length (elems m)])"
proof -
  let ?ks = "filter (\<lambda>k. elems m ! k) [0..<length (elems m)]"
  have "map (\<lambda>one. one * real_of_int roll) (replicate (length (filter id (elems m))) 1)
      = replicate (length ?ks) (real_of_int roll)"
    by (simp add: count_true)
  then show ?thesis
    unfolding triples_def masked_nth [OF assms(1)] masked_nth [OF assms(2)] assms
    by (simp add: zip3_maps comp_def)
qed

lemma build_loop_blocks:
  assumes "\<And>roll. roll \<in> set rolls \<Longrightarrow>
    calculate_allowable_map dlong decl (NpInteger roll) 15 14 = Inr (M roll)"
  shows "build_loop dlong decl rolls r
    = Inr (r @ map (\<lambda>roll. triples dlong decl (M roll) roll) rolls)"
  using assms by (induction rolls arbitrary: r) simp_all

lemma concat_filter_product:
  "concat (map (\<lambda>x. map (F x) (filter (P x) ys)) xs)
     = map (\<lambda>(x, y). F x y) (filter (\<lambda>(x, y). P x y) (List.product xs ys))"
  by (induction xs) (simp_all add: filter_map comp_def)


lemma grid_cells:
  "grid_dlong = \<lparr>shape = [180, 90], elems = map cell_dlong [0..<16200]\<rparr>"
  "grid_decl = \<lparr>shape = [180, 90], elems = map cell_decl [0..<16200]\<rparr>"
  unfolding grid_dlong_closed grid_decl_closed cell_dlong_def cell_decl_def by (rule refl)+

lemma grid_mask:
  "calculate_allowable_map grid_dlong grid_decl (NpInteger roll) 15 14 =
     Inr \<lparr>shape = [180, 90],
          elems = map (\<lambda>k. sector_ok 15 14 (cell_dlong k) (cell_decl k) (real_of_int roll))
                    [0..<16200]\<rparr>"
proof -
  have "calculate_allowable_map grid_dlong grid_decl (NpInteger roll) 15 14 =
     Inr \<lparr>shape = shape grid_dlong,
          elems = map (\<lambda>k. sector_ok 15 14 (elems grid_dlong ! k) (elems grid_decl ! k)
                          (real_of_int roll))
                    [0..<length (elems grid_dlong)]\<rparr>"
    by (rule calculate_allowable_map_scalar_roll) (simp_all add: grid_cells)
  also have "map (\<lambda>k. sector_ok 15 14 (elems grid_dlong ! k) (elems grid_decl ! k)
                          (real_of_int roll)) [0..<length (elems grid_dlong)]
      = map (\<lambda>k. sector_ok 15 14 (cell_dlong k) (cell_decl k) (real_of_int roll)) [0..<16200]"
    by (rule nth_equalityI) (simp_all add: grid_cells)
  finally show ?thesis
    by (simp add: grid_cells)
qed

lemma grid_triples:
  "triples grid_dlong grid_decl
      \<lparr>shape = [180, 90],
       elems = map (\<lambda>k. sector_ok 15 14 (cell_dlong k) (cell_decl k) (real_of_int roll))
                 [0..<16200]\<rparr> roll
     = map (\<lambda>k. [cell_dlong k, cell_decl k, real_of_int roll])
         (filter (\<lambda>k. sector_ok 15 14 (cell_dlong k) (cell_decl k) (real_of_int roll))
            [0..<16200])"
proof -
  let ?m = "\<lparr>shape = [180, 90],
       elems = map (\<lambda>k. sector_ok 15 14 (cell_dlong k) (cell_decl k) (real_of_int roll))
                 [0..<16200]\<rparr>"
  have "triples grid_dlong grid_decl ?m roll =
    map (\<lambda>k. [elems grid_dlong ! k, elems grid_decl ! k, real_of_int roll])
      (filter (\<lambda>k. elems ?m ! k) [0..<length (elems ?m)])"
    by (rule triples_closed) (simp_all add: grid_cells)
  also have "filter (\<lambda>k. elems ?m ! k) [0..<length (elems ?m)]
      = filter (\<lambda>k. sector_ok 15 14 (cell_dlong k) (cell_decl k) (real_of_int roll)) [0..<16200]"
    by (rule filter_cong) simp_all
  also have "map (\<lambda>k. [elems grid_dlong ! k, elems grid_decl ! k, real_of_int roll])
        (filter (\<lambda>k. sector_ok 15 14 (cell_dlong k) (cell_decl k) (real_of_int roll)) [0..<16200])
      = map (\<lambda>k. [cell_dlong k, cell_decl k, real_of_int roll])
        (filter (\<lambda>k. sector_ok 15 14 (cell_dlong k) (cell_decl k) (real_of_int roll)) [0..<16200])"
    by (rule map_cong) (simp_all add: grid_cells)
  finally show ?thesis .
qed

lemma build_grid_closed:
  "build_grid = Inr (map (\<lambda>(roll, k). [cell_dlong k, cell_decl k, real_of_int roll])
     (filter (\<lambda>(roll, k). sector_ok 15 14 (cell_dlong k) (cell_decl k) (real_of_int roll))
        (List.product (arange (- 180) 179 5) [0..<16200])))"
proof -
  have "build_loop grid_dlong grid_decl (arange (- 180) 179 5) []
      = Inr ([] @ map (\<lambda>roll. triples grid_dlong grid_decl
          \<lparr>shape = [180, 90],
           elems = map (\<lambda>k. sector_ok 15 14 (cell_dlong k) (cell_decl k) (real_of_int roll))
                     [0..<16200]\<rparr> roll) (arange (- 180) 179 5))"
    by (rule build_loop_blocks) (rule grid_mask)
  then show ?thesis
    unfolding build_grid_def grid_triples
    by (simp only: append_Nil sum.case concat_filter_product)
qed


lemma cell_in_grid:
  assumes "k < 16200"
  shows "\<exists>d e. cell_dlong k = real_of_int d \<and> cell_decl k = real_of_int e
    \<and> - 180 \<le> d \<and> d \<le> 178 \<and> even d \<and> - 90 \<le> e \<and> e \<le> 88 \<and> even e"
proof (intro exI conjI)
  show "cell_dlong k = real_of_int (- 180 + 2 * int (k div 90))"
    and "cell_decl k = real_of_int (- 90 + 2 * int (k mod 90))"
    by (simp_all add: cell_dlong_def cell_decl_def)
  have "k div 90 < 180" using assms by simp
  then show "- 180 + 2 * int (k div 90) \<le> 178" by linarith
  have "k mod 90 < 90" by simp
  then show "- 90 + 2 * int (k mod 90) \<le> 88" by linarith
qed simp_all

lemma grid_has_cell:
  assumes "- 180 \<le> d" "d \<le> 178" "even d" "- 90 \<le> e" "e \<le> 88" "even e"
  shows "\<exists>k<16200. cell_dlong k = real_of_int d \<and> cell_decl k = real_of_int e"
proof -
  define i where "i = nat ((d + 180) div 2)"
  define j where "j = nat ((e + 90) div 2)"
  have i: "i < 180" "int i * 2 = d + 180"
    using assms(1-3) by (auto simp: i_def elim!: evenE)
  have j: "j < 90" "int j * 2 = e + 90"
    using assms(4-6) by (auto simp: j_def elim!: evenE)
  have k: "i * 90 + j < 16200" using i(1) j(1) by linarith
  have "(i * 90 + j) div 90 = i" "(i * 90 + j) mod 90 = j"
    using j(1) by simp_all
  then have "cell_dlong (i * 90 + j) = real_of_int d" "cell_decl (i * 90 + j) = real_of_int e"
    using i(2) j(2) by (simp_all add: cell_dlong_def cell_decl_def)
  with k show ?thesis by blast
qed

lemma cell_inj:
  assumes "cell_dlong k = cell_dlong k'" and "cell_decl k = cell_decl k'"
  shows "k = k'"
proof -
  from assms have "k div 90 = k' div 90" and "k mod 90 = k' mod 90"
    by (simp_all add: cell_dlong_def cell_decl_def)
  then show ?thesis
    by (metis div_mult_mod_eq)
qed

lemma rolls_set:
  "roll \<in> set (arange (- 180) 179 5) \<longleftrightarrow> - 180 \<le> roll \<and> roll \<le> 178 \<and> 5 dvd roll"
proof
  assume "roll \<in> set (arange (- 180) 179 5)"
  then obtain j where "j < 72" and "roll = - 180 + 5 * int j"
    by (auto simp: arange_rolls)
  then show "- 180 \<le> roll \<and> roll \<le> 178 \<and> 5 dvd roll"
    by simp
next
  assume a: "- 180 \<le> roll \<and> roll \<le> 178 \<and> 5 dvd roll"
  then obtain m where m: "roll = 5 * m"
    by (auto elim: dvdE)
  define j where "j = nat (m + 36)"
  have "j < 72" and "roll = - 180 + 5 * int j"
    using a unfolding j_def m by linarith+
  then show "roll \<in> set (arange (- 180) 179 5)"
    by (auto simp: arange_rolls)
qed

lemma distinct_rolls: "distinct (arange (- 180) 179 5)"
  by (simp add: arange_rolls distinct_map inj_on_def)


text \<open>
  C6.  \<^verbatim>\<open>build_grid\<close> succeeds, and the array it writes to
  \<^verbatim>\<open>allowable_pointings_grid.p\<close> has one row for each allowable triple and no other:
  every row is \<open>[dlong, decl, roll]\<close> with \<open>dlong\<close> an even integer in \<open>[-180, 178]\<close>,
  \<open>decl\<close> an even integer in \<open>[-90, 88]\<close> and \<open>roll\<close> a multiple of 5 in \<open>[-180, 178]\<close>,
  allowable at the start, middle and end of the sector for \<open>ylim = 15\<close> and
  \<open>ndays = 14\<close>; every such triple is a row; and no row occurs twice.
\<close>

theorem build_grid_rows:
  "\<exists>rows. build_grid = Inr rows \<and> distinct rows
     \<and> (\<forall>row\<in>set rows. \<exists>d e r.
           row = [real_of_int d, real_of_int e, real_of_int r]
           \<and> - 180 \<le> d \<and> d \<le> 178 \<and> even d
           \<and> - 90 \<le> e \<and> e \<le> 88 \<and> even e
           \<and> - 180 \<le> r \<and> r \<le> 178 \<and> 5 dvd r
           \<and> sector_ok 15 14 (real_of_int d) (real_of_int e) (real_of_int r))
     \<and> (\<forall>d e r.
           - 180 \<le> d \<and> d \<le> 178 \<and> even d
           \<and> - 90 \<le> e \<and> e \<le> 88 \<and> even e
           \<and> - 180 \<le> r \<and> r \<le> 178 \<and> 5 dvd r
           \<and> sector_ok 15 14 (real_of_int d) (real_of_int e) (real_of_int r)
           \<longrightarrow> [real_of_int d, real_of_int e, real_of_int r] \<in> set rows)"
proof -
  let ?F = "\<lambda>(roll, k). [cell_dlong k, cell_decl k, real_of_int roll]"
  let ?Q = "\<lambda>(roll, k). sector_ok 15 14 (cell_dlong k) (cell_decl k) (real_of_int roll)"
  let ?ps = "List.product (arange (- 180) 179 5) [0..<16200]"
  let ?rows = "map ?F (filter ?Q ?ps)"
  have 1: "build_grid = Inr ?rows"
    by (rule build_grid_closed)
  have "inj_on ?F (set (filter ?Q ?ps))"
    by (auto simp: inj_on_def dest: cell_inj)
  moreover have "distinct (filter ?Q ?ps)"
    by (intro distinct_filter distinct_product distinct_rolls distinct_upt)
  ultimately have 2: "distinct ?rows"
    by (simp add: distinct_map)
  have 3: "\<forall>row\<in>set ?rows. \<exists>d e r.
           row = [real_of_int d, real_of_int e, real_of_int r]
           \<and> - 180 \<le> d \<and> d \<le> 178 \<and> even d
           \<and> - 90 \<le> e \<and> e \<le> 88 \<and> even e
           \<and> - 180 \<le> r \<and> r \<le> 178 \<and> 5 dvd r
           \<and> sector_ok 15 14 (real_of_int d) (real_of_int e) (real_of_int r)"
  proof
    fix row
    assume "row \<in> set ?rows"
    then obtain roll k where r: "roll \<in> set (arange (- 180) 179 5)" and k: "k < 16200"
      and ok: "sector_ok 15 14 (cell_dlong k) (cell_decl k) (real_of_int roll)"
      and row: "row = [cell_dlong k, cell_decl k, real_of_int roll]"
      by auto
    from cell_in_grid [OF k] obtain d e where
      "cell_dlong k = real_of_int d" "cell_decl k = real_of_int e"
      "- 180 \<le> d" "d \<le> 178" "even d" "- 90 \<le> e" "e \<le> 88" "even e"
      by blast
    then show "\<exists>d e r.
           row = [real_of_int d, real_of_int e, real_of_int r]
           \<and> - 180 \<le> d \<and> d \<le> 178 \<and> even d
           \<and> - 90 \<le> e \<and> e \<le> 88 \<and> even e
           \<and> - 180 \<le> r \<and> r \<le> 178 \<and> 5 dvd r
           \<and> sector_ok 15 14 (real_of_int d) (real_of_int e) (real_of_int r)"
      using r ok row unfolding rolls_set by metis
  qed
  have 4: "\<forall>d e r.
           - 180 \<le> d \<and> d \<le> 178 \<and> even d
           \<and> - 90 \<le> e \<and> e \<le> 88 \<and> even e
           \<and> - 180 \<le> r \<and> r \<le> 178 \<and> 5 dvd r
           \<and> sector_ok 15 14 (real_of_int d) (real_of_int e) (real_of_int r)
           \<longrightarrow> [real_of_int d, real_of_int e, real_of_int r] \<in> set ?rows"
  proof (intro allI impI)
    fix d e r :: int
    assume a: "- 180 \<le> d \<and> d \<le> 178 \<and> even d
           \<and> - 90 \<le> e \<and> e \<le> 88 \<and> even e
           \<and> - 180 \<le> r \<and> r \<le> 178 \<and> 5 dvd r
           \<and> sector_ok 15 14 (real_of_int d) (real_of_int e) (real_of_int r)"
    then obtain k where k: "k < 16200" "cell_dlong k = real_of_int d"
      "cell_decl k = real_of_int e"
      using grid_has_cell [of d e] by blast
    have "r \<in> set (arange (- 180) 179 5)"
      using a by (simp add: rolls_set)
    then have "(r, k) \<in> set (filter ?Q ?ps)"
      using a k by simp
    then have "?F (r, k) \<in> ?F ` set (filter ?Q ?ps)"
      by (rule imageI)
    then show "[real_of_int d, real_of_int e, real_of_int r] \<in> set ?rows"
      using k by simp
  qed
  show ?thesis
    by (rule exI [of _ ?rows], intro conjI) (rule 1 2 3 4)+
qed

theorem build_grid_rows_witness:
  "\<exists>rows. build_grid = Inr rows \<and> distinct rows
     \<and> sector_ok 15 14 (- 16) 0 90 \<and> [- 16, 0, 90] \<in> set rows
     \<and> \<not> sector_ok 15 14 0 0 0 \<and> [0, 0, 0] \<notin> set rows"
proof -
  have a: "sector_ok 15 14 (- 16) 0 90"
    using conditions_at_roll_90 [of 30] conditions_at_roll_90 [of 16]
      conditions_at_roll_90 [of 2]
    by (simp add: sector_ok_def)
  have b: "\<not> sector_ok 15 14 0 0 0"
    by (simp add: sector_ok_def not_conditions_at_origin)
  from build_grid_rows obtain rows where r: "build_grid = Inr rows" "distinct rows"
    and sound: "\<forall>row\<in>set rows. \<exists>d e r.
           row = [real_of_int d, real_of_int e, real_of_int r]
           \<and> - 180 \<le> d \<and> d \<le> 178 \<and> even d
           \<and> - 90 \<le> e \<and> e \<le> 88 \<and> even e
           \<and> - 180 \<le> r \<and> r \<le> 178 \<and> 5 dvd r
           \<and> sector_ok 15 14 (real_of_int d) (real_of_int e) (real_of_int r)"
    and complete: "\<forall>d e r.
           - 180 \<le> d \<and> d \<le> 178 \<and> even d
           \<and> - 90 \<le> e \<and> e \<le> 88 \<and> even e
           \<and> - 180 \<le> r \<and> r \<le> 178 \<and> 5 dvd r
           \<and> sector_ok 15 14 (real_of_int d) (real_of_int e) (real_of_int r)
           \<longrightarrow> [real_of_int d, real_of_int e, real_of_int r] \<in> set rows"
    by blast
  have "[real_of_int (- 16), real_of_int 0, real_of_int 90] \<in> set rows"
    using complete [rule_format, of "- 16" 0 90] a by simp
  then have in_rows: "[- 16, 0, 90] \<in> set rows" by simp
  have out: "[0, 0, 0] \<notin> set rows"
  proof
    assume "[0, 0, 0] \<in> set rows"
    with sound obtain d e r :: int where
      "[0, 0, 0] = [real_of_int d, real_of_int e, real_of_int r]"
      and "sector_ok 15 14 (real_of_int d) (real_of_int e) (real_of_int r)"
      by blast
    then show False using b by simp
  qed
  show ?thesis
    using r a b in_rows out by blast
qed

end
